theory Spec2Isabelle
  imports Complex_Main "HOL-Library.Log_Nat"
begin

section \<open>Income Tax Calculator: the \<open>TaxCalculator\<close> class of script.js\<close>

text \<open>
  The script computes a progressive federal income tax, a flat state tax and keeps the
  ten most recent calculations in \<open>localStorage\<close>.
\<close>

subsection \<open>Numbers\<close>

text \<open>
  A JavaScript number is an IEEE 754 binary64 value: a finite double, carried by the
  rational it denotes, one of the two infinities, or \<open>NaN\<close>. The two zeros are one
  value here: the script never divides by a zero and never tells them apart.
\<close>

datatype number = Fin rat | PInf | NInf | NaN

text \<open>
  Rounding a rational to the nearest double, ties to the even significand.
  \<open>ilog2 x\<close> is the exponent \<open>e\<close> with \<open>2 powi e \<le> x < 2 powi (e + 1)\<close> of a positive
  \<open>x\<close>; the doubles around \<open>x\<close> are the multiples of \<open>quantum x\<close>, 52 binary places
  below the exponent, which is at least -1022 (below that the doubles are subnormal);
  a result of \<open>2 powi 1024\<close> or more in magnitude is an infinity. A decimal literal of
  the source denotes the double nearest to it: \<open>0.10\<close> is \<open>fl 0.10\<close>.
\<close>

definition ilog2 :: "rat \<Rightarrow> int" where
  "ilog2 x = (if 1 \<le> x then bitlen \<lfloor>x\<rfloor> - 1 else - bitlen (\<lceil>1 / x\<rceil> - 1))"

definition rne :: "rat \<Rightarrow> int" where
  "rne y = (let f = \<lfloor>y\<rfloor>; d = y - of_int f
            in if d < 1 / 2 then f else if 1 / 2 < d then f + 1
               else if even f then f else f + 1)"

definition expo :: "rat \<Rightarrow> int" where
  "expo x = max (ilog2 \<bar>x\<bar>) (- 1022)"

definition quantum :: "rat \<Rightarrow> rat" where
  "quantum x = 2 powi (expo x - 52)"

definition nearest :: "rat \<Rightarrow> rat" where
  "nearest x = of_int (rne (x / quantum x)) * quantum x"

definition fl :: "rat \<Rightarrow> number" where
  "fl x = (let r = nearest x
           in if 1024 \<le> ilog2 \<bar>r\<bar> then (if 0 < r then PInf else NInf) else Fin r)"

text \<open>The arithmetic operators \<open>+\<close>, \<open>-\<close>, \<open>*\<close>, \<open>/\<close> on numbers.\<close>

fun neg :: "number \<Rightarrow> number" where
  "neg (Fin x) = Fin (- x)"
| "neg PInf = NInf"
| "neg NInf = PInf"
| "neg NaN = NaN"

fun add_n :: "number \<Rightarrow> number \<Rightarrow> number" where
  "add_n (Fin x) (Fin y) = fl (x + y)"
| "add_n NaN b = NaN"
| "add_n a NaN = NaN"
| "add_n PInf NInf = NaN"
| "add_n NInf PInf = NaN"
| "add_n PInf b = PInf"
| "add_n a PInf = PInf"
| "add_n NInf b = NInf"
| "add_n a NInf = NInf"

definition sub_n :: "number \<Rightarrow> number \<Rightarrow> number" where
  "sub_n a b = add_n a (neg b)"

text \<open>The infinity of the sign of \<open>x\<close> (positive when \<open>s\<close>), \<open>NaN\<close> for \<open>x = 0\<close>.\<close>

definition signed_inf :: "bool \<Rightarrow> rat \<Rightarrow> number" where
  "signed_inf s x = (if x = 0 then NaN else if (0 < x) = s then PInf else NInf)"

fun mul_n :: "number \<Rightarrow> number \<Rightarrow> number" where
  "mul_n (Fin x) (Fin y) = fl (x * y)"
| "mul_n NaN b = NaN"
| "mul_n a NaN = NaN"
| "mul_n (Fin x) PInf = signed_inf True x"
| "mul_n (Fin x) NInf = signed_inf False x"
| "mul_n PInf (Fin y) = signed_inf True y"
| "mul_n NInf (Fin y) = signed_inf False y"
| "mul_n PInf PInf = PInf"
| "mul_n NInf NInf = PInf"
| "mul_n PInf NInf = NInf"
| "mul_n NInf PInf = NInf"

fun div_n :: "number \<Rightarrow> number \<Rightarrow> number" where
  "div_n (Fin x) (Fin y) = (if y = 0 then signed_inf True x else fl (x / y))"
| "div_n NaN b = NaN"
| "div_n a NaN = NaN"
| "div_n (Fin x) PInf = Fin 0"
| "div_n (Fin x) NInf = Fin 0"
| "div_n PInf (Fin y) = (if 0 \<le> y then PInf else NInf)"
| "div_n NInf (Fin y) = (if 0 \<le> y then NInf else PInf)"
| "div_n a b = NaN"

text \<open>The comparisons \<open><\<close> and \<open>\<le>\<close>; with a \<open>NaN\<close> both are false.\<close>

fun lt_n :: "number \<Rightarrow> number \<Rightarrow> bool" where
  "lt_n (Fin x) (Fin y) = (x < y)"
| "lt_n (Fin x) PInf = True"
| "lt_n NInf (Fin y) = True"
| "lt_n NInf PInf = True"
| "lt_n a b = False"

fun le_n :: "number \<Rightarrow> number \<Rightarrow> bool" where
  "le_n (Fin x) (Fin y) = (x \<le> y)"
| "le_n (Fin x) PInf = True"
| "le_n NInf (Fin y) = True"
| "le_n NInf PInf = True"
| "le_n PInf PInf = True"
| "le_n NInf NInf = True"
| "le_n a b = False"

definition gt_n :: "number \<Rightarrow> number \<Rightarrow> bool" where
  "gt_n a b = lt_n b a"

definition ge_n :: "number \<Rightarrow> number \<Rightarrow> bool" where
  "ge_n a b = le_n b a"

text \<open>\<open>Math.min\<close>, \<open>Math.max\<close> and \<open>Math.round\<close> (a tie goes towards \<open>+Infinity\<close>).\<close>

fun Math_min :: "number \<Rightarrow> number \<Rightarrow> number" where
  "Math_min NaN b = NaN"
| "Math_min a NaN = NaN"
| "Math_min a b = (if lt_n b a then b else a)"

fun Math_max :: "number \<Rightarrow> number \<Rightarrow> number" where
  "Math_max NaN b = NaN"
| "Math_max a NaN = NaN"
| "Math_max a b = (if lt_n a b then b else a)"

fun Math_round :: "number \<Rightarrow> number" where
  "Math_round (Fin x) = Fin (of_int \<lfloor>x + 1 / 2\<rfloor>)"
| "Math_round a = a"

text \<open>Truthiness of a number (\<open>0\<close> and \<open>NaN\<close> are falsy) and \<open>a || d\<close> on numbers.\<close>

fun truthy_n :: "number \<Rightarrow> bool" where
  "truthy_n (Fin x) = (x \<noteq> 0)"
| "truthy_n NaN = False"
| "truthy_n a = True"

definition or_n :: "number \<Rightarrow> number \<Rightarrow> number" where
  "or_n a d = (if truthy_n a then a else d)"

subsection \<open>Property reads\<close>

text \<open>
  \<open>obj[key]\<close> on an object literal gives the literal's own property, or else the member
  of \<open>Object.prototype\<close> of that name, or else \<open>undefined\<close>. The members of
  \<open>Object.prototype\<close> are functions (\<open>__proto__\<close> reads the prototype object itself):
  truthy, not numbers, not iterable.
\<close>

definition Object_prototype :: "string list" where
  "Object_prototype =
     [''constructor'', ''__defineGetter__'', ''__defineSetter__'', ''hasOwnProperty'',
      ''__lookupGetter__'', ''__lookupSetter__'', ''isPrototypeOf'',
      ''propertyIsEnumerable'', ''toString'', ''valueOf'', ''__proto__'',
      ''toLocaleString'']"

datatype 'a property = Undefined | Own 'a | Inherited

definition get_property :: "(string \<rightharpoonup> 'a) \<Rightarrow> string \<Rightarrow> 'a property" where
  "get_property obj key =
     (case obj key of
        Some v \<Rightarrow> Own v
      | None \<Rightarrow> if key \<in> set Object_prototype then Inherited else Undefined)"

text \<open>
  What a variable holds after such a read and a \<open>||\<close>: a value of the kind the script
  expects, or a member of \<open>Object.prototype\<close>. As a number such a member is \<open>NaN\<close>.
\<close>

datatype 'a dyn = Val 'a | Prototype_member

fun ToNumber :: "number dyn \<Rightarrow> number" where
  "ToNumber (Val a) = a"
| "ToNumber Prototype_member = NaN"

text \<open>\<open>obj[key] || d\<close> for a table of numbers.\<close>

definition number_or :: "number property \<Rightarrow> number \<Rightarrow> number dyn" where
  "number_or p d =
     (case p of Undefined \<Rightarrow> Val d | Own v \<Rightarrow> Val (or_n v d) | Inherited \<Rightarrow> Prototype_member)"

subsection \<open>Tax brackets and standard deductions\<close>

record bracket =
  min_b :: number
  max_b :: number
  rate :: number

definition single_brackets :: "bracket list" where
  "single_brackets =
    [\<lparr>min_b = Fin 0, max_b = Fin 11000, rate = fl 0.10\<rparr>,
     \<lparr>min_b = Fin 11000, max_b = Fin 44725, rate = fl 0.12\<rparr>,
     \<lparr>min_b = Fin 44725, max_b = Fin 95375, rate = fl 0.22\<rparr>,
     \<lparr>min_b = Fin 95375, max_b = Fin 182050, rate = fl 0.24\<rparr>,
     \<lparr>min_b = Fin 182050, max_b = Fin 231250, rate = fl 0.32\<rparr>,
     \<lparr>min_b = Fin 231250, max_b = Fin 578125, rate = fl 0.35\<rparr>,
     \<lparr>min_b = Fin 578125, max_b = PInf, rate = fl 0.37\<rparr>]"

definition marriedJointly_brackets :: "bracket list" where
  "marriedJointly_brackets =
    [\<lparr>min_b = Fin 0, max_b = Fin 22000, rate = fl 0.10\<rparr>,
     \<lparr>min_b = Fin 22000, max_b = Fin 89450, rate = fl 0.12\<rparr>,
     \<lparr>min_b = Fin 89450, max_b = Fin 190750, rate = fl 0.22\<rparr>,
     \<lparr>min_b = Fin 190750, max_b = Fin 364200, rate = fl 0.24\<rparr>,
     \<lparr>min_b = Fin 364200, max_b = Fin 462500, rate = fl 0.32\<rparr>,
     \<lparr>min_b = Fin 462500, max_b = Fin 693750, rate = fl 0.35\<rparr>,
     \<lparr>min_b = Fin 693750, max_b = PInf, rate = fl 0.37\<rparr>]"

text \<open>
  The own properties of \<open>this.taxBrackets2024\<close> and \<open>this.standardDeductions2024\<close>;
  the script reads both with \<open>get_property\<close>, by the value of the filing-status field.
\<close>

definition taxBrackets2024 :: "string \<rightharpoonup> bracket list" where
  "taxBrackets2024 =
     [''single'' \<mapsto> single_brackets, ''marriedJointly'' \<mapsto> marriedJointly_brackets]"

definition standardDeductions2024 :: "string \<rightharpoonup> number" where
  "standardDeductions2024 =
     [''single'' \<mapsto> Fin 13850, ''marriedJointly'' \<mapsto> Fin 27700,
      ''marriedSeparately'' \<mapsto> Fin 13850, ''headOfHousehold'' \<mapsto> Fin 20800]"

subsection \<open>Federal tax\<close>

text \<open>
  The body of the \<open>for\<close> loop of \<open>calculateFederalTax\<close>, and the loop over an array.
  (With a \<open>brackets\<close> that is not iterable the \<open>for ... of\<close> throws; \<open>calculateTax\<close>
  below has that case.)
\<close>

definition add_bracket :: "number \<Rightarrow> number \<Rightarrow> bracket \<Rightarrow> number" where
  "add_bracket taxableIncome tax b =
     (if gt_n taxableIncome (min_b b)
      then add_n tax (mul_n (sub_n (Math_min taxableIncome (max_b b)) (min_b b)) (rate b))
      else tax)"

fun federal_loop :: "number \<Rightarrow> bracket list \<Rightarrow> number \<Rightarrow> number" where
  "federal_loop taxableIncome [] tax = tax"
| "federal_loop taxableIncome (b # bs) tax =
     federal_loop taxableIncome bs (add_bracket taxableIncome tax b)"

definition calculateFederalTax :: "number \<Rightarrow> bracket list \<Rightarrow> number" where
  "calculateFederalTax taxableIncome brackets =
     div_n (Math_round (mul_n (federal_loop taxableIncome brackets (Fin 0)) (Fin 100)))
       (Fin 100)"

subsection \<open>State tax\<close>

definition stateRates :: "string \<rightharpoonup> number" where
  "stateRates =
     [''none'' \<mapsto> Fin 0, ''low'' \<mapsto> fl 0.03, ''medium'' \<mapsto> fl 0.06, ''high'' \<mapsto> fl 0.10]"

definition calculateStateTax :: "number \<Rightarrow> string \<Rightarrow> number" where
  "calculateStateTax income state =
     div_n (Math_round
              (mul_n (mul_n income
                        (ToNumber (number_or (get_property stateRates state) (Fin 0))))
                 (Fin 100)))
       (Fin 100)"

subsection \<open>Marginal rate\<close>

datatype error = SyntaxError | TypeError

text \<open>
  The \<open>for\<close> loop of \<open>getMarginalRate\<close>: \<open>Some r\<close> when the loop returns \<open>r\<close>,
  \<open>None\<close> when it runs to its end.
\<close>

fun marginal_loop :: "number \<Rightarrow> bracket list \<Rightarrow> number option" where
  "marginal_loop taxableIncome [] = None"
| "marginal_loop taxableIncome (b # bs) =
     (if ge_n taxableIncome (min_b b) \<and> lt_n taxableIncome (max_b b)
      then Some (rate b)
      else marginal_loop taxableIncome bs)"

text \<open>
  After the loop the source reads \<open>brackets[brackets.length - 1].rate\<close>; on an empty
  array that is a property read on \<open>undefined\<close>, a \<open>TypeError\<close>.
\<close>

definition getMarginalRate :: "number \<Rightarrow> bracket list \<Rightarrow> error + number" where
  "getMarginalRate taxableIncome brackets =
     (case marginal_loop taxableIncome brackets of
        Some r \<Rightarrow> Inr r
      | None \<Rightarrow> (if brackets = [] then Inl TypeError else Inr (rate (last brackets))))"

subsection \<open>History and its persisted form\<close>

text \<open>
  The fields shared by the object handed to \<open>displayResults\<close> and the object handed to
  \<open>saveToHistory\<close>, and the two objects.
\<close>

record amounts =
  income :: number
  filingStatus :: string
  federalTax :: number
  stateTax :: number
  totalTax :: number
  afterTaxIncome :: number

record results = amounts +
  deductions :: "number dyn"
  taxableIncome :: number
  brackets :: "bracket list"

record calculation = amounts +
  date :: string

text \<open>
  \<open>localStorage\<close> maps a key to a text. The model keeps of a text what \<open>JSON.parse\<close>
  makes of it: the value it deserialises to, or \<open>Malformed\<close> for a text that
  \<open>JSON.parse\<close> rejects with a \<open>SyntaxError\<close>.
\<close>

datatype json =
  JNull | JBool bool | JNum rat | JStr string | JArr "json list" | JObj "(string \<times> json) list"

datatype item = JSON_text json | Malformed

fun JSON_parse :: "item \<Rightarrow> error + json" where
  "JSON_parse (JSON_text v) = Inr v"
| "JSON_parse Malformed = Inl SyntaxError"

fun truthy :: "json \<Rightarrow> bool" where
  "truthy JNull = False"
| "truthy (JBool b) = b"
| "truthy (JNum n) = (n \<noteq> 0)"
| "truthy (JStr s) = (s \<noteq> [])"
| "truthy (JArr xs) = True"
| "truthy (JObj kvs) = True"

text \<open>\<open>JSON.stringify\<close> writes a finite number as it is, an infinity or \<open>NaN\<close> as \<open>null\<close>.\<close>

fun number_json :: "number \<Rightarrow> json" where
  "number_json (Fin x) = JNum x"
| "number_json a = JNull"

definition calculation_json :: "calculation \<Rightarrow> json" where
  "calculation_json c =
     JObj [(''date'', JStr (date c)), (''income'', number_json (income c)),
           (''filingStatus'', JStr (filingStatus c)),
           (''federalTax'', number_json (federalTax c)),
           (''stateTax'', number_json (stateTax c)),
           (''totalTax'', number_json (totalTax c)),
           (''afterTaxIncome'', number_json (afterTaxIncome c))]"

definition JSON_stringify :: "calculation list \<Rightarrow> item" where
  "JSON_stringify h = JSON_text (JArr (map calculation_json h))"

text \<open>The calculator object (its \<open>history\<close>) and the browser's \<open>localStorage\<close>.\<close>

record calculator =
  history :: "calculation list"
  localStorage :: "string \<rightharpoonup> item"

text \<open>
  Line 39 of the constructor:
  \<open>this.history = JSON.parse(localStorage.getItem('taxHistory')) || []\<close>.
  \<open>getItem\<close> gives \<open>null\<close> for an absent key, \<open>JSON.parse(null)\<close> is \<open>null\<close>, and
  \<open>null || []\<close> is the empty array. Nothing catches what \<open>JSON.parse\<close> throws.
\<close>

definition load_history :: "(string \<rightharpoonup> item) \<Rightarrow> error + json" where
  "load_history store =
     (case store ''taxHistory'' of
        None \<Rightarrow> Inr (JArr [])
      | Some text \<Rightarrow>
          (case JSON_parse text of
             Inl e \<Rightarrow> Inl e
           | Inr v \<Rightarrow> Inr (if truthy v then v else JArr [])))"

definition saveToHistory :: "calculator \<Rightarrow> calculation \<Rightarrow> calculator" where
  "saveToHistory this c =
     (let h = c # history this;
          h' = (if length h > 10 then butlast h else h)
      in this\<lparr>history := h',
              localStorage := (localStorage this)(''taxHistory'' \<mapsto> JSON_stringify h')\<rparr>)"

definition clearHistory :: "calculator \<Rightarrow> calculator" where
  "clearHistory this =
     this\<lparr>history := [], localStorage := (localStorage this)(''taxHistory'' := None)\<rparr>"

subsection \<open>The calculation\<close>

text \<open>
  The form as \<open>calculateTax\<close> reads it: the two numeric fields after \<open>parseFloat\<close>
  (\<open>NaN\<close> for an empty or non-numeric field), the two selects as their string values.
\<close>

record form =
  income_field :: number
  filingStatus_field :: string
  deductions_field :: number
  state_field :: string

text \<open>
  What \<open>displayBreakdown\<close> computes besides the fields of \<open>results\<close>: the effective
  rate in percent (before \<open>toFixed(2)\<close> formats it) and the marginal rate.
\<close>

record breakdown =
  effectiveRate :: number
  marginalRate :: number

definition displayBreakdown :: "results \<Rightarrow> error + breakdown" where
  "displayBreakdown r =
     (case getMarginalRate (taxableIncome r) (brackets r) of
        Inl e \<Rightarrow> Inl e
      | Inr m \<Rightarrow>
          Inr \<lparr>effectiveRate = mul_n (div_n (totalTax r) (income r)) (Fin 100),
               marginalRate = m\<rparr>)"

definition displayResults :: "results \<Rightarrow> error + breakdown" where
  "displayResults r = displayBreakdown r"

text \<open>What the user sees: the validation alert, or the result cards and the breakdown.\<close>

datatype outcome = Alert string | Displayed results breakdown

text \<open>
  Lines 80-81: \<open>this.standardDeductions2024[filingStatus] || 13850\<close>, then
  \<open>customDeductions || standardDeduction\<close>. Line 87:
  \<open>this.taxBrackets2024[filingStatus] || this.taxBrackets2024.single\<close> (an array is
  truthy, also an empty one).
\<close>

definition resolve_deductions :: "string \<Rightarrow> number \<Rightarrow> number dyn" where
  "resolve_deductions filingStatus' customDeductions =
     (let standardDeduction =
            number_or (get_property standardDeductions2024 filingStatus') (Fin 13850)
      in if truthy_n customDeductions then Val customDeductions else standardDeduction)"

definition resolve_brackets :: "string \<Rightarrow> bracket list dyn" where
  "resolve_brackets filingStatus' =
     (case get_property taxBrackets2024 filingStatus' of
        Undefined \<Rightarrow> Val single_brackets
      | Own bs \<Rightarrow> Val bs
      | Inherited \<Rightarrow> Prototype_member)"

text \<open>
  \<open>calculateTax\<close>, with the date string of \<open>new Date().toLocaleDateString()\<close> as an
  argument. It returns what is shown and the calculator after the call. The local
  constants that share a name with a field carry a prime. When \<open>brackets\<close> is a member
  of \<open>Object.prototype\<close>, the \<open>for ... of\<close> of \<open>calculateFederalTax\<close> throws a
  \<open>TypeError\<close>, before anything is shown or saved.
\<close>

definition calculateTax :: "calculator \<Rightarrow> string \<Rightarrow> form \<Rightarrow> error + (outcome \<times> calculator)" where
  "calculateTax this today f =
     (let income' = or_n (income_field f) (Fin 0);
          filingStatus' = filingStatus_field f;
          customDeductions = or_n (deductions_field f) (Fin 0);
          state = state_field f
      in if \<not> truthy_n income' \<or> filingStatus' = []
         then Inr (Alert ''Please enter your income and filing status.'', this)
         else
           let deductions' = resolve_deductions filingStatus' customDeductions;
               taxableIncome' = Math_max (Fin 0) (sub_n income' (ToNumber deductions'))
           in case resolve_brackets filingStatus' of
                Prototype_member \<Rightarrow> Inl TypeError
              | Val brackets' \<Rightarrow>
                  let federalTax' = calculateFederalTax taxableIncome' brackets';
                      stateTax' = calculateStateTax income' state;
                      totalTax' = add_n federalTax' stateTax';
                      afterTaxIncome' = sub_n income' totalTax';
                      r = \<lparr>income = income', filingStatus = filingStatus',
                           federalTax = federalTax', stateTax = stateTax',
                           totalTax = totalTax', afterTaxIncome = afterTaxIncome',
                           deductions = deductions', taxableIncome = taxableIncome',
                           brackets = brackets'\<rparr>
                  in case displayResults r of
                       Inl e \<Rightarrow> Inl e
                     | Inr shown \<Rightarrow>
                         Inr (Displayed r shown,
                              saveToHistory this
                                \<lparr>income = income', filingStatus = filingStatus',
                                 federalTax = federalTax', stateTax = stateTax',
                                 totalTax = totalTax', afterTaxIncome = afterTaxIncome',
                                 date = today\<rparr>))"

subsection \<open>Well-formed bracket tables\<close>

text \<open>
  A bracket of the data model has a finite non-negative \<open>min\<close> and a rate in \<open>[0, 1)\<close>.
  A table is well formed when its brackets are such brackets, each bracket ends where
  the next one starts, the \<open>min\<close>s ascend and the last \<open>max\<close> is \<open>Infinity\<close>.
\<close>

definition valid_bracket :: "bracket \<Rightarrow> bool" where
  "valid_bracket b =
     (le_n (Fin 0) (min_b b) \<and> lt_n (min_b b) PInf \<and>
      le_n (Fin 0) (rate b) \<and> lt_n (rate b) (Fin 1))"

fun contiguous :: "bracket list \<Rightarrow> bool" where
  "contiguous [] = False"
| "contiguous [b] = (max_b b = PInf)"
| "contiguous (b # c # bs) =
     (max_b b = min_b c \<and> le_n (min_b b) (min_b c) \<and> contiguous (c # bs))"

definition well_formed :: "bracket list \<Rightarrow> bool" where
  "well_formed bs = (list_all valid_bracket bs \<and> contiguous bs)"

text \<open>
  The federal tax as the specification words it: for each bracket in ascending order
  whose \<open>min\<close> the taxable income exceeds, the portion between \<open>min\<close> and
  \<open>min(taxableIncome, max)\<close> times the rate, accumulated across those brackets; the
  total multiplied by 100, rounded to the nearest integer and divided by 100.
\<close>

definition exceeds_min :: "number \<Rightarrow> bracket \<Rightarrow> bool" where
  "exceeds_min taxableIncome' b = gt_n taxableIncome' (min_b b)"

definition portion_tax :: "number \<Rightarrow> bracket \<Rightarrow> number" where
  "portion_tax taxableIncome' b =
     mul_n (sub_n (Math_min taxableIncome' (max_b b)) (min_b b)) (rate b)"


text \<open>
  The marginal rate as the specification words it: the rate of the first bracket with
  \<open>min \<le> taxableIncome < max\<close>.
\<close>

definition in_bracket :: "number \<Rightarrow> bracket \<Rightarrow> bool" where
  "in_bracket taxableIncome' b =
     (le_n (min_b b) taxableIncome' \<and> lt_n taxableIncome' (max_b b))"

definition first_bracket :: "number \<Rightarrow> bracket list \<Rightarrow> bracket option" where
  "first_bracket taxableIncome' bs = find (in_bracket taxableIncome') bs"

text \<open>A bracket whose \<open>max\<close> is not below its \<open>min\<close>.\<close>

definition bounded_bracket :: "bracket \<Rightarrow> bool" where
  "bounded_bracket b = le_n (min_b b) (max_b b)"

text \<open>
  A rational that is a finite double, and a number that the tax loop can hold: a
  non-negative finite double or \<open>Infinity\<close>.
\<close>

definition is_double :: "rat \<Rightarrow> bool" where
  "is_double x = (fl x = Fin x)"

fun stable :: "number \<Rightarrow> bool" where
  "stable (Fin x) = (0 \<le> x \<and> is_double x)"
| "stable PInf = True"
| "stable a = False"

text \<open>A history entry to run the history on.\<close>

definition sample_calculation :: "rat \<Rightarrow> calculation" where
  "sample_calculation n =
     \<lparr>income = Fin n, filingStatus = ''single'', federalTax = Fin 0, stateTax = Fin 0,
      totalTax = Fin 0, afterTaxIncome = Fin n, date = ''1/1/2024''\<rparr>"

section \<open>Properties\<close>

subsection \<open>Rounding to a double\<close>

text \<open>
  \<open>ilog2\<close> is the binary exponent, so the quantum is the spacing of the doubles
  around its argument; rounding is monotone and idempotent on the non-negative
  rationals, the only ones the tax loop rounds.
\<close>

lemma ilog2_ge_one:
  assumes "1 \<le> x"
  shows "2 powi ilog2 x \<le> x \<and> x < 2 powi (ilog2 x + 1)"
proof -
  let ?n = "\<lfloor>x\<rfloor>"
  from assms have n: "0 < ?n" by simp
  let ?k = "bitlen ?n"
  from bitlen_bounds [OF n] have lo: "2 ^ nat (?k - 1) \<le> ?n" and hi: "?n < 2 ^ nat ?k"
    by simp_all
  from n have k: "1 \<le> ?k" by (simp add: bitlen_alt_def)
  have e: "ilog2 x = ?k - 1" using assms by (simp add: ilog2_def)
  have "(2::rat) powi (?k - 1) = of_int (2 ^ nat (?k - 1))"
    using k by (simp add: power_int_nonneg_exp)
  also have "\<dots> \<le> of_int ?n" using lo by (simp only: of_int_le_iff)
  also have "\<dots> \<le> x" by simp
  finally have a: "2 powi (?k - 1) \<le> x" .
  have "x < of_int (?n + 1)" by linarith
  also have "\<dots> \<le> of_int (2 ^ nat ?k)" using hi by (simp only: of_int_le_iff)
  also have "\<dots> = (2::rat) powi ?k" using k by (simp add: power_int_nonneg_exp)
  finally have b: "x < 2 powi ?k" .
  from a b e show ?thesis by simp
qed

lemma ilog2_less_one:
  assumes "0 < x" "x < 1"
  shows "2 powi ilog2 x \<le> x \<and> x < 2 powi (ilog2 x + 1)"
proof -
  let ?y = "1 / x"
  let ?j = "\<lceil>?y\<rceil> - 1"
  from assms have y: "1 < ?y" by simp
  then have j: "0 < ?j" by linarith
  let ?k = "bitlen ?j"
  from bitlen_bounds [OF j] have lo: "2 ^ nat (?k - 1) \<le> ?j" and hi: "?j < 2 ^ nat ?k"
    by simp_all
  from j have k: "1 \<le> ?k" by (simp add: bitlen_alt_def)
  have e: "ilog2 x = - ?k" using assms by (simp add: ilog2_def)
  have "?y \<le> of_int (?j + 1)" by simp
  also have "\<dots> \<le> of_int (2 ^ nat ?k)" using hi by (simp only: of_int_le_iff)
  also have "\<dots> = (2::rat) powi ?k" using k by (simp add: power_int_nonneg_exp)
  finally have "1 / x \<le> 2 powi ?k" .
  then have "1 \<le> 2 powi ?k * x" using assms(1) by (simp add: field_simps)
  then have a: "2 powi (- ?k) \<le> x"
    by (simp add: power_int_minus field_simps)
  have "(2::rat) powi (?k - 1) = of_int (2 ^ nat (?k - 1))"
    using k by (simp add: power_int_nonneg_exp)
  also have "\<dots> \<le> of_int ?j" using lo by (simp only: of_int_le_iff)
  also have "\<dots> < ?y" by linarith
  finally have lt: "2 powi (?k - 1) < 1 / x" .
  have P: "0 < (2::rat) powi (?k - 1)" by simp
  from lt assms(1) have "2 powi (?k - 1) * x < 1" by (simp add: pos_less_divide_eq)
  then have "x * 2 powi (?k - 1) < 1" by (simp add: mult.commute)
  then have "x < 1 / 2 powi (?k - 1)" using P by (simp add: pos_less_divide_eq)
  also have "1 / 2 powi (?k - 1) = (2::rat) powi (- (?k - 1))"
    by (simp only: power_int_minus_divide)
  also have "- (?k - 1) = - ?k + 1" by simp
  finally have b: "x < 2 powi (- ?k + 1)" .
  from a b e show ?thesis by simp
qed

lemma ilog2_bounds:
  "0 < x \<Longrightarrow> 2 powi ilog2 x \<le> x \<and> x < 2 powi (ilog2 x + 1)"
  using ilog2_ge_one [of x] ilog2_less_one [of x] by (cases "1 \<le> x") simp_all

lemma rne_of_int: "rne (of_int n) = n"
  by (simp add: rne_def)

lemma rne_bounds: "\<lfloor>y\<rfloor> \<le> rne y \<and> rne y \<le> \<lfloor>y\<rfloor> + 1"
  by (simp add: rne_def Let_def)

lemma rne_mono:
  assumes "y \<le> z"
  shows "rne y \<le> rne z"
proof (cases "\<lfloor>y\<rfloor> = \<lfloor>z\<rfloor>")
  case True
  with assms have "y - of_int \<lfloor>y\<rfloor> \<le> z - of_int \<lfloor>y\<rfloor>" by simp
  with True show ?thesis by (auto simp add: rne_def Let_def)
next
  case False
  with assms have "\<lfloor>y\<rfloor> + 1 \<le> \<lfloor>z\<rfloor>" using floor_mono [of y z] by linarith
  with rne_bounds [of y] rne_bounds [of z] show ?thesis by linarith
qed

lemma quantum_expo: "quantum x = 2 powi (expo x - 52)"
  by (simp add: quantum_def)

lemma quantum_pos: "0 < quantum x"
  by (simp add: quantum_def)

lemma nearest_upper:
  assumes "0 < x"
  shows "nearest x \<le> 2 powi (expo x + 1)"
proof -
  from ilog2_bounds [OF assms] have "x < 2 powi (ilog2 x + 1)" by simp
  also have "\<dots> \<le> 2 powi (expo x + 1)"
    using assms by (intro power_int_increasing) (simp_all add: expo_def)
  finally have "x / quantum x \<le> 2 powi (expo x + 1) / quantum x"
    using quantum_pos [of x] by (simp add: divide_right_mono)
  also have "2 powi (expo x + 1) / quantum x = (2::rat) powi 53"
    unfolding quantum_expo by (simp flip: power_int_diff)
  also have "\<dots> = of_int (2 ^ 53)" by simp
  finally have "rne (x / quantum x) \<le> 2 ^ 53"
    using rne_mono [of "x / quantum x" "of_int (2 ^ 53)"] by (simp only: rne_of_int)
  then have "(of_int (rne (x / quantum x)) :: rat) \<le> of_int (2 ^ 53)"
    by (simp only: of_int_le_iff)
  then have "of_int (rne (x / quantum x)) * quantum x \<le> of_int (2 ^ 53) * quantum x"
    by (rule mult_right_mono) (rule less_imp_le [OF quantum_pos])
  also have "of_int (2 ^ 53) * quantum x = (2::rat) powi 53 * 2 powi (expo x - 52)"
    unfolding quantum_expo by simp
  also have "\<dots> = 2 powi (53 + (expo x - 52))"
    by (rule power_int_add [symmetric]) simp
  also have "53 + (expo x - 52) = expo x + 1" by simp
  finally show ?thesis by (simp only: nearest_def)
qed

lemma nearest_lower:
  assumes "0 < x" "- 1022 \<le> ilog2 x"
  shows "2 powi expo x \<le> nearest x"
proof -
  from assms have e: "expo x = ilog2 x" by (simp add: expo_def)
  from ilog2_bounds [OF assms(1)] e have "2 powi expo x \<le> x" by simp
  then have "2 powi expo x / quantum x \<le> x / quantum x"
    using quantum_pos [of x] by (simp add: divide_right_mono)
  moreover have "2 powi expo x / quantum x = (2::rat) powi 52"
    unfolding quantum_expo by (simp flip: power_int_diff)
  moreover have "(2::rat) powi 52 = of_int (2 ^ 52)" by simp
  ultimately have "of_int (2 ^ 52) \<le> x / quantum x" by simp
  then have "2 ^ 52 \<le> rne (x / quantum x)"
    using rne_mono [of "of_int (2 ^ 52)" "x / quantum x"] by (simp only: rne_of_int)
  then have "(of_int (2 ^ 52) :: rat) \<le> of_int (rne (x / quantum x))"
    by (simp only: of_int_le_iff)
  then have "of_int (2 ^ 52) * quantum x \<le> of_int (rne (x / quantum x)) * quantum x"
    by (rule mult_right_mono) (rule less_imp_le [OF quantum_pos])
  moreover have "of_int (2 ^ 52) * quantum x = (2::rat) powi 52 * 2 powi (expo x - 52)"
    unfolding quantum_expo by simp
  moreover have "(2::rat) powi 52 * 2 powi (expo x - 52) = 2 powi (52 + (expo x - 52))"
    by (rule power_int_add [symmetric]) simp
  moreover have "52 + (expo x - 52) = expo x" by simp
  ultimately show ?thesis by (simp only: nearest_def)
qed

lemma nearest_zero: "nearest 0 = 0"
  by (simp add: nearest_def rne_def)

lemma nearest_nonneg: "0 \<le> x \<Longrightarrow> 0 \<le> nearest x"
proof -
  assume "0 \<le> x"
  then have "0 \<le> x / quantum x" using quantum_pos [of x] by simp
  then have "rne (of_int 0) \<le> rne (x / quantum x)" by (intro rne_mono) simp
  then have "0 \<le> rne (x / quantum x)" by (simp only: rne_of_int)
  then show ?thesis using quantum_pos [of x] by (simp add: nearest_def)
qed

lemma nearest_mono_pos:
  assumes "0 < x" "x \<le> y"
  shows "nearest x \<le> nearest y"
proof -
  from assms have y: "0 < y" by simp
  consider "expo x = expo y" | "expo x < expo y" | "expo y < expo x" by linarith
  then show ?thesis
  proof cases
    case 1
    then have q: "quantum x = quantum y" by (simp add: quantum_expo)
    from assms(2) have "x / quantum y \<le> y / quantum y"
      using quantum_pos [of y] by (simp add: divide_right_mono)
    then have "rne (x / quantum y) \<le> rne (y / quantum y)" by (rule rne_mono)
    then show ?thesis using quantum_pos [of y]
      by (simp add: nearest_def q mult_right_mono)
  next
    case 2
    then have "- 1022 < expo y" by (simp add: expo_def)
    with y have ly: "- 1022 \<le> ilog2 y" by (simp add: expo_def)
    have "nearest x \<le> 2 powi (expo x + 1)" by (rule nearest_upper [OF assms(1)])
    also have "\<dots> \<le> 2 powi expo y" using 2 by (intro power_int_increasing) simp_all
    also have "\<dots> \<le> nearest y" by (rule nearest_lower [OF y ly])
    finally show ?thesis .
  next
    case 3
    then have "- 1022 < expo x" by (simp add: expo_def)
    with assms(1) have ex: "expo x = ilog2 x" by (simp add: expo_def)
    from y have "ilog2 y \<le> expo y" by (simp add: expo_def)
    from ilog2_bounds [OF y] have "y < 2 powi (ilog2 y + 1)" by simp
    also have "\<dots> \<le> 2 powi expo x"
      using 3 \<open>ilog2 y \<le> expo y\<close> by (intro power_int_increasing) simp_all
    also have "\<dots> \<le> x" using ilog2_bounds [OF assms(1)] ex by simp
    finally show ?thesis using assms(2) by simp
  qed
qed

lemma nearest_mono_nonneg:
  assumes "0 \<le> x" "x \<le> y"
  shows "nearest x \<le> nearest y"
proof (cases "x = 0")
  case True
  with assms nearest_nonneg [of y] show ?thesis by (simp add: nearest_zero)
next
  case False
  with assms show ?thesis by (intro nearest_mono_pos) simp_all
qed


lemma pow2_less_imp_less:
  assumes "(2::rat) powi m < 2 powi n"
  shows "m < n"
proof (rule ccontr)
  assume "\<not> m < n"
  then have "n \<le> m" by simp
  then have "(2::rat) powi n \<le> 2 powi m" by (intro power_int_increasing) simp_all
  with assms show False by simp
qed

lemma ilog2_unique:
  assumes "0 < x" "2 powi e \<le> x" "x < 2 powi (e + 1)"
  shows "ilog2 x = e"
proof -
  from ilog2_bounds [OF assms(1)] have lo: "2 powi ilog2 x \<le> x" and hi: "x < 2 powi (ilog2 x + 1)"
    by simp_all
  from lo assms(3) have "(2::rat) powi ilog2 x < 2 powi (e + 1)" by simp
  then have "ilog2 x < e + 1" by (rule pow2_less_imp_less)
  moreover from assms(2) hi have "(2::rat) powi e < 2 powi (ilog2 x + 1)" by simp
  then have "e < ilog2 x + 1" by (rule pow2_less_imp_less)
  ultimately show ?thesis by simp
qed

text \<open>A multiple of a quantum that is a power of two at or below that of \<open>r\<close>.\<close>

lemma nearest_fixed:
  assumes "r = of_int n * 2 powi (e - 52)" "expo r \<le> e"
  shows "nearest r = r"
proof -
  let ?d = "e - expo r"
  from assms(2) have d: "0 \<le> ?d" by simp
  have "(2::rat) powi (e - 52) = 2 powi (?d + (expo r - 52))" by simp
  also have "\<dots> = 2 powi ?d * 2 powi (expo r - 52)" by (rule power_int_add) simp
  also have "(2::rat) powi ?d = of_int (2 ^ nat ?d)" using d by (simp add: power_int_nonneg_exp)
  finally have m: "r = of_int (n * 2 ^ nat ?d) * quantum r"
    by (simp add: assms(1) quantum_expo)
  define q where "q = quantum r"
  with quantum_pos [of r] have q: "q \<noteq> 0" by simp
  from m have "r / q = of_int (n * 2 ^ nat ?d) * q / q" by (simp add: q_def)
  also have "\<dots> = of_int (n * 2 ^ nat ?d)" using q by simp
  finally have "rne (r / q) = n * 2 ^ nat ?d" by (simp only: rne_of_int)
  then have "nearest r = of_int (n * 2 ^ nat ?d) * q" by (simp only: nearest_def q_def)
  with m show ?thesis by (simp add: q_def)
qed

lemma nearest_idem_pos:
  assumes "0 < x"
  shows "nearest (nearest x) = nearest x"
proof -
  let ?r = "nearest x"
  have r: "?r = of_int (rne (x / quantum x)) * 2 powi (expo x - 52)"
    by (simp add: nearest_def quantum_expo)
  have up: "?r \<le> 2 powi (expo x + 1)" by (rule nearest_upper [OF assms])
  have nn: "0 \<le> ?r" using assms by (intro nearest_nonneg) simp
  have "nearest ?r = ?r" if "?r \<noteq> 0"
  proof (cases "expo ?r \<le> expo x")
    case True
    from nearest_fixed [OF r True] show ?thesis .
  next
    case False
    note that
    then have ex: "expo x < expo ?r" using False by simp
    then have "- 1022 < expo ?r" by (simp add: expo_def)
    then have il: "expo ?r = ilog2 \<bar>?r\<bar>" by (simp add: expo_def)
    from that nn have pos: "0 < ?r" by simp
    with il have il': "expo ?r = ilog2 ?r" by simp
    from ilog2_bounds [OF pos] il' have "2 powi expo ?r \<le> ?r" by simp
    moreover have "(2::rat) powi (expo x + 1) \<le> 2 powi expo ?r"
      using ex by (intro power_int_increasing) simp_all
    ultimately have eq: "?r = 2 powi (expo x + 1)" using up by simp
    have "(2::rat) powi (expo x + 1) = 2 powi (52 + (expo x + 1 - 52))"
      by (rule arg_cong [where f = "\<lambda>k. (2::rat) powi k"]) simp
    also have "\<dots> = 2 powi 52 * 2 powi (expo x + 1 - 52)" by (rule power_int_add) simp
    also have "(2::rat) powi 52 = of_int (2 ^ 52)" by simp
    finally have "?r = of_int (2 ^ 52) * 2 powi ((expo x + 1) - 52)"
      by (simp only: eq)
    moreover have "expo ?r \<le> expo x + 1"
    proof -
      have "(2::rat) powi expo ?r \<le> ?r" by fact
      also have "\<dots> < 2 powi (expo x + 2)"
        unfolding eq by (intro power_int_strict_increasing) simp_all
      finally show ?thesis using pow2_less_imp_less [of "expo ?r" "expo x + 2"] by simp
    qed
    ultimately show ?thesis by (rule nearest_fixed)
  qed
  then show ?thesis by (cases "?r = 0") (simp_all add: nearest_zero)
qed

lemma ilog2_zero: "ilog2 0 \<le> 0"
  using bitlen_nonneg [of "- 1"] by (simp add: ilog2_def)

lemma fl_zero: "fl 0 = Fin 0"
  using ilog2_zero by (simp add: fl_def nearest_zero)

lemma fl_cases_nonneg:
  assumes "0 \<le> x"
  shows "fl x = PInf \<and> 1024 \<le> ilog2 (nearest x) \<and> 0 < nearest x \<or>
         fl x = Fin (nearest x) \<and> ilog2 \<bar>nearest x\<bar> < 1024"
proof -
  from nearest_nonneg [OF assms] have nn: "0 \<le> nearest x" .
  show ?thesis
  proof (cases "1024 \<le> ilog2 \<bar>nearest x\<bar>")
    case True
    then have "nearest x \<noteq> 0" using ilog2_zero by auto
    with nn True show ?thesis by (simp add: fl_def Let_def)
  next
    case False
    then show ?thesis by (simp add: fl_def Let_def)
  qed
qed

lemma fl_stable:
  assumes "0 \<le> x"
  shows "stable (fl x)"
proof -
  from fl_cases_nonneg [OF assms] show ?thesis
  proof
    assume "fl x = PInf \<and> 1024 \<le> ilog2 (nearest x) \<and> 0 < nearest x"
    then show ?thesis by simp
  next
    assume a: "fl x = Fin (nearest x) \<and> ilog2 \<bar>nearest x\<bar> < 1024"
    have "nearest (nearest x) = nearest x"
      using assms nearest_idem_pos [of x] by (cases "x = 0") (simp_all add: nearest_zero)
    with a have "fl (nearest x) = Fin (nearest x)" by (simp add: fl_def Let_def)
    with a nearest_nonneg [OF assms] show ?thesis by (simp add: is_double_def)
  qed
qed

lemma fl_mono:
  assumes "0 \<le> x" "x \<le> y"
  shows "le_n (fl x) (fl y)"
proof -
  from assms have y: "0 \<le> y" by simp
  from nearest_mono_nonneg [OF assms] have m: "nearest x \<le> nearest y" .
  from fl_cases_nonneg [OF y] show ?thesis
  proof
    assume "fl y = PInf \<and> 1024 \<le> ilog2 (nearest y) \<and> 0 < nearest y"
    with fl_cases_nonneg [OF assms(1)] show ?thesis by auto
  next
    assume b: "fl y = Fin (nearest y) \<and> ilog2 \<bar>nearest y\<bar> < 1024"
    from fl_cases_nonneg [OF assms(1)] show ?thesis
    proof
      assume a: "fl x = PInf \<and> 1024 \<le> ilog2 (nearest x) \<and> 0 < nearest x"
      then have px: "0 < nearest x" by simp
      with m have py: "0 < nearest y" by simp
      from ilog2_bounds [OF px] a have "(2::rat) powi 1024 \<le> nearest x"
        using power_int_increasing [of 1024 "ilog2 (nearest x)" "2::rat"] by simp
      moreover from ilog2_bounds [OF py] b py have "nearest y < 2 powi 1024"
        using power_int_increasing [of "ilog2 (nearest y) + 1" 1024 "2::rat"] by simp
      ultimately show ?thesis using m by simp
    next
      assume "fl x = Fin (nearest x) \<and> ilog2 \<bar>nearest x\<bar> < 1024"
      with b m show ?thesis by simp
    qed
  qed
qed

subsection \<open>Numbers the loop holds\<close>

lemma le_n_trans: "le_n a b \<Longrightarrow> le_n b c \<Longrightarrow> le_n a c"
  by (cases a; cases b; cases c) simp_all

lemma stable_cases:
  assumes "stable a"
  obtains x where "a = Fin x" "0 \<le> x" "fl x = Fin x" | "a = PInf"
  using assms by (cases a) (simp_all add: is_double_def)

lemma stable_le_refl: "stable a \<Longrightarrow> le_n a a"
  by (cases a) simp_all

lemma add_stable: "stable a \<Longrightarrow> stable b \<Longrightarrow> stable (add_n a b)"
  by (cases a; cases b) (simp_all add: fl_stable)

lemma add_mono:
  assumes "stable a" "stable b" "le_n a a'" "le_n b b'"
  shows "le_n (add_n a b) (add_n a' b')"
proof -
  from assms(1) show ?thesis
  proof (cases rule: stable_cases)
    case (1 x)
    from assms(2) show ?thesis
    proof (cases rule: stable_cases)
      case b: (1 y)
      show ?thesis
      proof (cases a')
        case (Fin x')
        show ?thesis
        proof (cases b')
          case fb: (Fin y')
          with Fin 1 b assms(3,4) have "0 \<le> x + y" "x + y \<le> x' + y'" by simp_all
          then show ?thesis using Fin fb 1 b by (simp add: fl_mono)
        next
          case PInf
          have "stable (fl (x + y))" using 1 b by (intro fl_stable) simp
          then show ?thesis using Fin PInf 1 b by (cases "fl (x + y)") simp_all
        qed (use b assms(4) in simp_all)
      next
        case PInf
        have s: "stable (fl (x + y))" using 1 b by (intro fl_stable) simp
        from b assms(4) have "b' = PInf \<or> (\<exists>y'. b' = Fin y')" by (cases b') simp_all
        then show ?thesis using PInf 1 b s by (cases "fl (x + y)") auto
      qed (use 1 assms(3) in simp_all)
    next
      case 2
      with assms(4) have "b' = PInf" by (cases b') simp_all
      moreover from 1 assms(3) have "a' = PInf \<or> (\<exists>x'. a' = Fin x')" by (cases a') simp_all
      ultimately show ?thesis using 1 2 by auto
    qed
  next
    case 2
    with assms(3) have a': "a' = PInf" by (cases a') simp_all
    from assms(2) show ?thesis
    proof (cases rule: stable_cases)
      case (1 y)
      with assms(4) have "b' = PInf \<or> (\<exists>y'. b' = Fin y')" by (cases b') simp_all
      with 2 a' 1 show ?thesis by auto
    next
      case b: 2
      with assms(4) have "b' = PInf" by (cases b') simp_all
      with 2 a' b show ?thesis by simp
    qed
  qed
qed

lemma add_incr:
  assumes "stable a" "stable b"
  shows "le_n a (add_n a b)"
proof -
  from assms(1) show ?thesis
  proof (cases rule: stable_cases)
    case (1 x)
    from assms(2) show ?thesis
    proof (cases rule: stable_cases)
      case b: (1 y)
      from fl_mono [of x "x + y"] 1 b show ?thesis by simp
    next
      case 2
      with 1 show ?thesis by simp
    qed
  next
    case 2
    with assms(2) show ?thesis by (cases b) simp_all
  qed
qed

lemma fl_finite_below:
  assumes "0 \<le> z" "z \<le> Y" "is_double Y"
  obtains p where "fl z = Fin p" "0 \<le> p" "is_double p"
proof -
  from fl_mono [OF assms(1,2)] assms(3) have "le_n (fl z) (Fin Y)" by (simp add: is_double_def)
  moreover from fl_stable [OF assms(1)] have "stable (fl z)" .
  ultimately show ?thesis using that by (cases "fl z") simp_all
qed

lemma valid_bracketE:
  assumes "valid_bracket b"
  obtains m r where "min_b b = Fin m" "0 \<le> m" "rate b = Fin r" "0 \<le> r" "r < 1"
proof -
  from assms obtain m where m: "min_b b = Fin m" "0 \<le> m"
    by (cases "min_b b") (simp_all add: valid_bracket_def)
  from assms obtain r where r: "rate b = Fin r" "0 \<le> r" "r < 1"
    by (cases "rate b") (simp_all add: valid_bracket_def)
  from m r that show ?thesis by blast
qed

text \<open>The amount of income a bracket taxes, before rounding: \<open>min(x, max) - min\<close>.\<close>

lemma portion_amount:
  assumes "min_b b = Fin m" "bounded_bracket b" "m < x"
  obtains u where "Math_min (Fin x) (max_b b) = Fin u" "m \<le> u" "u \<le> x"
    "\<And>x' u'. x \<le> x' \<Longrightarrow> Math_min (Fin x') (max_b b) = Fin u' \<Longrightarrow> u \<le> u'"
proof (cases "max_b b")
  case (Fin M)
  with assms have mM: "m \<le> M" by (simp add: bounded_bracket_def)
  have 1: "Math_min (Fin x) (max_b b) = Fin (min x M)" using Fin by (simp add: min_def)
  have 2: "m \<le> min x M" using mM assms(3) by simp
  have 3: "min x M \<le> x" by simp
  have 4: "min x M \<le> u'" if "x \<le> x'" "Math_min (Fin x') (max_b b) = Fin u'" for x' u'
    using that Fin by (auto split: if_splits)
  from 1 2 3 4 show ?thesis by (rule that)
next
  case PInf
  have 1: "Math_min (Fin x) (max_b b) = Fin x" using PInf by simp
  have 4: "x \<le> u'" if "x \<le> x'" "Math_min (Fin x') (max_b b) = Fin u'" for x' u'
    using that PInf by simp
  from 1 less_imp_le [OF assms(3)] order_refl 4 show ?thesis by (rule that)
next
  case NInf
  with assms show ?thesis by (simp add: bounded_bracket_def)
next
  case NaN
  with assms show ?thesis by (simp add: bounded_bracket_def)
qed

lemma portion_tax_stable:
  assumes "valid_bracket b" "bounded_bracket b" "is_double Y" "x \<le> Y"
    "gt_n (Fin x) (min_b b)"
  shows "stable (portion_tax (Fin x) b)"
proof -
  from assms(1) obtain m r where b: "min_b b = Fin m" "0 \<le> m" "rate b = Fin r" "0 \<le> r" "r < 1"
    by (rule valid_bracketE)
  from assms(5) b have mx: "m < x" by (simp add: gt_n_def)
  from portion_amount [OF b(1) assms(2) mx] obtain u where
    u: "Math_min (Fin x) (max_b b) = Fin u" "m \<le> u" "u \<le> x" by blast
  from u b assms(4) have "0 \<le> u - m" "u - m \<le> Y" by simp_all
  from fl_finite_below [OF this assms(3)] obtain p where p: "fl (u - m) = Fin p" "0 \<le> p"
    by blast
  have "portion_tax (Fin x) b = fl (p * r)"
    using u b p by (simp add: portion_tax_def sub_n_def)
  moreover have "stable (fl (p * r))" using p b by (intro fl_stable) simp
  ultimately show ?thesis by simp
qed

lemma portion_tax_mono:
  assumes "valid_bracket b" "bounded_bracket b" "is_double Y" "x \<le> y" "y \<le> Y"
    "gt_n (Fin x) (min_b b)"
  shows "le_n (portion_tax (Fin x) b) (portion_tax (Fin y) b)"
proof -
  from assms(1) obtain m r where b: "min_b b = Fin m" "0 \<le> m" "rate b = Fin r" "0 \<le> r" "r < 1"
    by (rule valid_bracketE)
  from assms(6) b have mx: "m < x" by (simp add: gt_n_def)
  with assms(4) have my: "m < y" by simp
  from portion_amount [OF b(1) assms(2) mx] obtain u where
    u: "Math_min (Fin x) (max_b b) = Fin u" "m \<le> u" "u \<le> x"
    and um: "\<And>x' u'. x \<le> x' \<Longrightarrow> Math_min (Fin x') (max_b b) = Fin u' \<Longrightarrow> u \<le> u'"
    by blast
  from portion_amount [OF b(1) assms(2) my] obtain v where
    v: "Math_min (Fin y) (max_b b) = Fin v" "m \<le> v" "v \<le> y" by blast
  from um [OF assms(4) v(1)] have uv: "u \<le> v" .
  from u v b assms(4,5) have "0 \<le> u - m" "u - m \<le> Y" "0 \<le> v - m" "v - m \<le> Y"
    by simp_all
  from fl_finite_below [OF this(1,2) assms(3)] obtain p where p: "fl (u - m) = Fin p" "0 \<le> p"
    by blast
  from fl_finite_below [OF \<open>0 \<le> v - m\<close> \<open>v - m \<le> Y\<close> assms(3)] obtain q where
    q: "fl (v - m) = Fin q" "0 \<le> q" by blast
  from fl_mono [of "u - m" "v - m"] uv \<open>0 \<le> u - m\<close> p q have "p \<le> q" by simp
  then have "p * r \<le> q * r" using b by (simp add: mult_right_mono)
  moreover have "0 \<le> p * r" using p b by simp
  ultimately have "le_n (fl (p * r)) (fl (q * r))" by (intro fl_mono)
  moreover have "portion_tax (Fin x) b = fl (p * r)"
    using u b p by (simp add: portion_tax_def sub_n_def)
  moreover have "portion_tax (Fin y) b = fl (q * r)"
    using v b q by (simp add: portion_tax_def sub_n_def)
  ultimately show ?thesis by simp
qed

lemma add_bracket_portion:
  "add_bracket ti tax b = (if exceeds_min ti b then add_n tax (portion_tax ti b) else tax)"
  by (simp add: add_bracket_def exceeds_min_def portion_tax_def)

lemma add_bracket_stable:
  assumes "valid_bracket b" "bounded_bracket b" "is_double Y" "x \<le> Y" "stable t"
  shows "stable (add_bracket (Fin x) t b)"
  using assms portion_tax_stable [OF assms(1-4)]
  by (simp add: add_bracket_portion exceeds_min_def add_stable)

lemma add_bracket_mono:
  assumes "valid_bracket b" "bounded_bracket b" "is_double y" "x \<le> y"
    "stable t" "stable u" "le_n t u"
  shows "le_n (add_bracket (Fin x) t b) (add_bracket (Fin y) u b)"
proof (cases "gt_n (Fin x) (min_b b)")
  case True
  from assms(1) obtain m where m: "min_b b = Fin m" by (rule valid_bracketE)
  with True assms(4) have gy: "gt_n (Fin y) (min_b b)" by (simp add: gt_n_def)
  have "le_n (add_n t (portion_tax (Fin x) b)) (add_n u (portion_tax (Fin y) b))"
    using assms(5) portion_tax_stable [OF assms(1,2,3,4) True] assms(7)
      portion_tax_mono [OF assms(1,2,3,4) order_refl True]
    by (rule add_mono)
  with True gy show ?thesis by (simp add: add_bracket_portion exceeds_min_def)
next
  case False
  show ?thesis
  proof (cases "gt_n (Fin y) (min_b b)")
    case True
    have "le_n u (add_n u (portion_tax (Fin y) b))"
      using assms(6) portion_tax_stable [OF assms(1,2,3) order_refl True] by (rule add_incr)
    with assms(7) have "le_n t (add_n u (portion_tax (Fin y) b))" by (rule le_n_trans)
    with False True show ?thesis by (simp add: add_bracket_portion exceeds_min_def)
  next
    case no: False
    with False assms(7) show ?thesis by (simp add: add_bracket_portion exceeds_min_def)
  qed
qed

lemma federal_loop_mono:
  assumes "list_all valid_bracket bs" "list_all bounded_bracket bs" "is_double y" "x \<le> y"
    "stable t" "stable u" "le_n t u"
  shows "le_n (federal_loop (Fin x) bs t) (federal_loop (Fin y) bs u) \<and>
         stable (federal_loop (Fin x) bs t)"
  using assms
proof (induction bs arbitrary: t u)
  case Nil
  then show ?case by simp
next
  case (Cons b bs)
  from Cons.prems have b: "valid_bracket b" "bounded_bracket b" by simp_all
  have "stable (add_bracket (Fin x) t b)"
    using b Cons.prems(3,4,5) by (rule add_bracket_stable)
  moreover have "stable (add_bracket (Fin y) u b)"
    using b Cons.prems(3) order_refl Cons.prems(6) by (rule add_bracket_stable)
  moreover have "le_n (add_bracket (Fin x) t b) (add_bracket (Fin y) u b)"
    using b Cons.prems(3,4,5,6,7) by (rule add_bracket_mono)
  ultimately show ?case using Cons.IH Cons.prems by simp
qed

text \<open>The last line of \<open>calculateFederalTax\<close> keeps the order.\<close>

lemma round_cents_mono:
  assumes "stable a" "le_n a b"
  shows "le_n (div_n (Math_round (mul_n a (Fin 100))) (Fin 100))
              (div_n (Math_round (mul_n b (Fin 100))) (Fin 100))"
proof -
  have step: "le_n (div_n (Math_round c) (Fin 100)) (div_n (Math_round d) (Fin 100))"
    if "stable c" "le_n c d" for c d
  proof -
    from that(1) show ?thesis
    proof (cases rule: stable_cases)
      case (1 z)
      show ?thesis
      proof (cases d)
        case (Fin w)
        with 1 that(2) have "z \<le> w" by simp
        then have "\<lfloor>z + 1 / 2\<rfloor> \<le> \<lfloor>w + 1 / 2\<rfloor>" by (intro floor_mono) simp
        then have "(of_int \<lfloor>z + 1 / 2\<rfloor> :: rat) / 100 \<le> of_int \<lfloor>w + 1 / 2\<rfloor> / 100"
          by (simp add: divide_right_mono)
        moreover have "(0::rat) \<le> of_int \<lfloor>z + 1 / 2\<rfloor> / 100" using 1 by simp
        ultimately show ?thesis using 1 Fin by (simp add: fl_mono)
      next
        case PInf
        have "stable (fl (of_int \<lfloor>z + 1 / 2\<rfloor> / 100))" using 1 by (intro fl_stable) simp
        then show ?thesis using 1 PInf
          by (cases "fl (of_int \<lfloor>z + 1 / 2\<rfloor> / 100)") simp_all
      qed (use 1 that(2) in simp_all)
    next
      case 2
      with that(2) have "d = PInf" by (cases d) simp_all
      with 2 show ?thesis by simp
    qed
  qed
  have s: "stable (mul_n a (Fin 100))"
    using assms(1) by (cases a) (simp_all add: fl_stable signed_inf_def)
  have "le_n (mul_n a (Fin 100)) (mul_n b (Fin 100))"
  proof -
    from assms(1) show ?thesis
    proof (cases rule: stable_cases)
      case (1 z)
      show ?thesis
      proof (cases b)
        case (Fin w)
        with 1 assms(2) show ?thesis by (simp add: fl_mono)
      next
        case PInf
        have "stable (fl (z * 100))" using 1 by (intro fl_stable) simp
        then show ?thesis using 1 PInf by (cases "fl (z * 100)") (simp_all add: signed_inf_def)
      qed (use 1 assms(2) in simp_all)
    next
      case 2
      with assms(2) have "b = PInf" by (cases b) simp_all
      with 2 show ?thesis by (simp add: signed_inf_def)
    qed
  qed
  with s show ?thesis by (rule step)
qed

lemma contiguous_bounded:
  "contiguous bs \<Longrightarrow> list_all valid_bracket bs \<Longrightarrow> list_all bounded_bracket bs"
proof (induction bs rule: contiguous.induct)
  case 1
  then show ?case by simp
next
  case (2 b)
  then obtain m where "min_b b = Fin m" by (auto elim: valid_bracketE)
  with 2 show ?case by (simp add: bounded_bracket_def)
next
  case (3 b c bs)
  then show ?case by (simp add: bounded_bracket_def)
qed

subsection \<open>Federal tax: the loop is the accumulation of the specification\<close>





subsection \<open>Federal tax: monotonicity\<close>

text \<open>
  Claim C8. On a well-formed bracket table the federal tax is monotonically
  non-decreasing in the taxable income: for amounts \<open>a \<le> b\<close>, with \<open>b\<close> a finite double,
  the tax on \<open>a\<close> is at most the tax on \<open>b\<close> (for every \<open>a\<close>, so for \<open>0 \<le> a\<close> too). Every
  rounding of the loop keeps the order.
\<close>

theorem calculateFederalTax_mono:
  assumes "well_formed T" and "is_double b" and "a \<le> b"
  shows "le_n (calculateFederalTax (Fin a) T) (calculateFederalTax (Fin b) T)"
proof -
  from assms(1) have v: "list_all valid_bracket T" and "contiguous T"
    by (simp_all add: well_formed_def)
  then have bd: "list_all bounded_bracket T" by (simp add: contiguous_bounded)
  have z: "stable (Fin 0)" by (simp add: is_double_def fl_zero)
  have zz: "le_n (Fin 0) (Fin 0)" by simp
  from federal_loop_mono [OF v bd assms(2,3) z z zz]
  have "le_n (federal_loop (Fin a) T (Fin 0)) (federal_loop (Fin b) T (Fin 0))"
    and "stable (federal_loop (Fin a) T (Fin 0))" by simp_all
  from round_cents_mono [OF this(2,1)] show ?thesis by (simp add: calculateFederalTax_def)
qed

theorem calculateFederalTax_mono_witness:
  "well_formed single_brackets \<and> is_double 50000 \<and> (36150::rat) \<le> 50000 \<and>
   le_n (calculateFederalTax (Fin 36150) single_brackets)
        (calculateFederalTax (Fin 50000) single_brackets) \<and>
   calculateFederalTax (Fin 36150) single_brackets = Fin 4118 \<and>
   calculateFederalTax (Fin 50000) single_brackets = Fin 6307.5"
proof -
  have h: "well_formed single_brackets" by code_simp
  have d: "is_double 50000" by code_simp
  have le: "(36150::rat) \<le> 50000" by simp
  have v1: "calculateFederalTax (Fin 36150) single_brackets = Fin 4118" by code_simp
  have v2: "calculateFederalTax (Fin 50000) single_brackets = Fin 6307.5" by code_simp
  from calculateFederalTax_mono [OF h d le] h d v1 v2 show ?thesis by simp
qed

subsection \<open>The arithmetic at the cent boundary\<close>

text \<open>
  Where double arithmetic and exact arithmetic part: at a taxable income of 44726.25
  the accumulated tax times 100 is just below 514727.5 and \<open>Math.round\<close> goes down,
  and the state tax on 5.5 at 3 percent is 0.16.
\<close>

lemma federal_tax_44726_25:
  "calculateFederalTax (fl 44726.25) single_brackets = fl 5147.27"
  by code_simp

lemma state_tax_5_5_low: "calculateStateTax (fl 5.5) ''low'' = fl 0.16"
  by code_simp

subsection \<open>Marginal rate\<close>

lemma marginal_loop_find:
  "marginal_loop ti bs = map_option rate (find (in_bracket ti) bs)"
  by (induction bs) (simp_all add: in_bracket_def ge_n_def)

lemma contiguous_tail: "contiguous (b # bs) \<Longrightarrow> bs \<noteq> [] \<Longrightarrow> contiguous bs"
  by (cases bs) simp_all

lemma le_n_not_lt: "le_n a b \<Longrightarrow> \<not> lt_n b a"
  by (cases a; cases b) simp_all

lemma later_bracket_above:
  "contiguous (b # bs) \<Longrightarrow> c \<in> set bs \<Longrightarrow> le_n (min_b c) ti \<Longrightarrow> le_n (max_b b) ti"
proof (induction bs arbitrary: b)
  case Nil
  then show ?case by simp
next
  case (Cons d ds)
  from Cons.prems(1) have m: "max_b b = min_b d" and bd: "le_n (min_b b) (min_b d)"
    and cd: "contiguous (d # ds)" by simp_all
  show ?case
  proof (cases "c = d")
    case True
    with m Cons.prems(3) show ?thesis by simp
  next
    case False
    with Cons.prems(2) have c: "c \<in> set ds" by simp
    then have "ds \<noteq> []" by auto
    then obtain e es where ds: "ds = e # es" by (cases ds) auto
    from Cons.IH [OF cd c Cons.prems(3)] have "le_n (max_b d) ti" .
    moreover from cd ds have "max_b d = min_b e" "le_n (min_b d) (min_b e)" by simp_all
    ultimately have "le_n (min_b d) ti" using le_n_trans by metis
    with m show ?thesis by simp
  qed
qed

lemma later_bracket_excludes:
  assumes "contiguous (b # bs)" "c \<in> set bs" "in_bracket ti c"
  shows "\<not> in_bracket ti b"
proof -
  from assms(3) have "le_n (min_b c) ti" by (simp add: in_bracket_def)
  from later_bracket_above [OF assms(1,2) this] have "le_n (max_b b) ti" .
  then show ?thesis by (simp add: in_bracket_def le_n_not_lt)
qed

lemma find_in_bracket:
  "contiguous bs \<Longrightarrow> b \<in> set bs \<Longrightarrow> in_bracket ti b \<Longrightarrow>
   find (in_bracket ti) bs = Some b"
proof (induction bs)
  case Nil
  then show ?case by simp
next
  case (Cons x xs)
  show ?case
  proof (cases "in_bracket ti x")
    case True
    have "b = x"
    proof (rule ccontr)
      assume "b \<noteq> x"
      with Cons.prems(2) have "b \<in> set xs" by simp
      from later_bracket_excludes [OF Cons.prems(1) this Cons.prems(3)] True
      show False by simp
    qed
    with True show ?thesis by simp
  next
    case False
    with Cons.prems have bx: "b \<in> set xs" by auto
    then have "xs \<noteq> []" by auto
    from contiguous_tail [OF Cons.prems(1) this] have "contiguous xs" .
    from Cons.IH [OF this bx Cons.prems(3)] False show ?thesis by simp
  qed
qed

lemma some_bracket_covers:
  "contiguous bs \<Longrightarrow> list_all valid_bracket bs \<Longrightarrow> le_n (min_b (hd bs)) (Fin x) \<Longrightarrow>
   \<exists>b. find (in_bracket (Fin x)) bs = Some b"
proof (induction bs rule: contiguous.induct)
  case 1
  then show ?case by simp
next
  case (2 b)
  then show ?case by (simp add: in_bracket_def)
next
  case (3 b c bs)
  from "3.prems"(2) obtain m where m: "min_b c = Fin m" by (auto elim: valid_bracketE)
  show ?case
  proof (cases "x < m")
    case True
    with "3.prems" m have "in_bracket (Fin x) b" by (simp add: in_bracket_def)
    then show ?thesis by simp
  next
    case False
    with m have "le_n (min_b (hd (c # bs))) (Fin x)" by simp
    with "3.prems" "3.IH" have "\<exists>b. find (in_bracket (Fin x)) (c # bs) = Some b" by simp
    then show ?thesis by (cases "in_bracket (Fin x) b") simp_all
  qed
qed

text \<open>
  Claim C7 as it is stated fails. The one-bracket table \<open>[5, Infinity)\<close> at rate 0.1 is
  well formed, the taxable income 3 is not negative, no bracket has
  \<open>min \<le> 3 < max\<close>, the loop of \<open>getMarginalRate\<close> runs to its end and the rate
  returned is the fallback, the last bracket's.
\<close>

theorem getMarginalRate_fallback_reached:
  "well_formed [\<lparr>min_b = Fin 5, max_b = PInf, rate = fl 0.1\<rparr>] \<and> le_n (Fin 0) (Fin 3) \<and>
   first_bracket (Fin 3) [\<lparr>min_b = Fin 5, max_b = PInf, rate = fl 0.1\<rparr>] = None \<and>
   marginal_loop (Fin 3) [\<lparr>min_b = Fin 5, max_b = PInf, rate = fl 0.1\<rparr>] = None \<and>
   getMarginalRate (Fin 3) [\<lparr>min_b = Fin 5, max_b = PInf, rate = fl 0.1\<rparr>] = Inr (fl 0.1)"
  by code_simp

text \<open>
  Claim C7, amended. On a well-formed bracket sequence, for every finite taxable income
  that is at least the first bracket's \<open>min\<close> (every non-negative one when the table
  starts at 0, as both tables of the source do), \<open>getMarginalRate\<close> returns the rate of
  the first bracket with \<open>min \<le> taxableIncome < max\<close> from inside its loop, so the
  fallback is not reached; and for every taxable income within the \<open>[min, max)\<close> of a
  bracket of the sequence it returns exactly that bracket's rate.
\<close>

theorem getMarginalRate_first_bracket:
  assumes "well_formed bs"
  shows "(le_n (min_b (hd bs)) ti \<and> lt_n ti PInf \<longrightarrow>
           (\<exists>b. first_bracket ti bs = Some b \<and> marginal_loop ti bs = Some (rate b) \<and>
                getMarginalRate ti bs = Inr (rate b))) \<and>
         (b \<in> set bs \<and> in_bracket ti b \<longrightarrow> getMarginalRate ti bs = Inr (rate b))"
proof -
  from assms have c: "contiguous bs" and v: "list_all valid_bracket bs"
    by (simp_all add: well_formed_def)
  have one: "\<exists>b. first_bracket ti bs = Some b \<and> marginal_loop ti bs = Some (rate b) \<and>
                getMarginalRate ti bs = Inr (rate b)"
    if "le_n (min_b (hd bs)) ti" "lt_n ti PInf"
  proof -
    from c obtain b0 bs0 where bs: "bs = b0 # bs0" by (cases bs) simp_all
    with v obtain m where "min_b (hd bs) = Fin m" by (auto elim: valid_bracketE)
    with that obtain x where x: "ti = Fin x" by (cases ti) simp_all
    from some_bracket_covers [OF c v] that(1) x
    obtain b where "find (in_bracket ti) bs = Some b" by blast
    then show ?thesis
      by (simp add: first_bracket_def getMarginalRate_def marginal_loop_find)
  qed
  have two: "getMarginalRate ti bs = Inr (rate b)" if "b \<in> set bs" "in_bracket ti b"
    using find_in_bracket [OF c that]
    by (simp add: getMarginalRate_def marginal_loop_find)
  from one two show ?thesis by blast
qed

theorem getMarginalRate_first_bracket_witness:
  "well_formed single_brackets \<and> le_n (min_b (hd single_brackets)) (Fin 36150) \<and>
   lt_n (Fin 36150) PInf \<and>
   \<lparr>min_b = Fin 11000, max_b = Fin 44725, rate = fl 0.12\<rparr> \<in> set single_brackets \<and>
   in_bracket (Fin 36150) \<lparr>min_b = Fin 11000, max_b = Fin 44725, rate = fl 0.12\<rparr> \<and>
   first_bracket (Fin 36150) single_brackets
     = Some \<lparr>min_b = Fin 11000, max_b = Fin 44725, rate = fl 0.12\<rparr> \<and>
   marginal_loop (Fin 36150) single_brackets = Some (fl 0.12) \<and>
   getMarginalRate (Fin 36150) single_brackets = Inr (fl 0.12)"
proof -
  have h: "well_formed single_brackets" by code_simp
  have m: "le_n (min_b (hd single_brackets)) (Fin 36150)" by code_simp
  have l: "lt_n (Fin 36150) PInf" by simp
  have s: "\<lparr>min_b = Fin 11000, max_b = Fin 44725, rate = fl 0.12\<rparr> \<in> set single_brackets"
    by (simp add: single_brackets_def)
  have i: "in_bracket (Fin 36150) \<lparr>min_b = Fin 11000, max_b = Fin 44725, rate = fl 0.12\<rparr>"
    by (simp add: in_bracket_def)
  have f: "first_bracket (Fin 36150) single_brackets
      = Some \<lparr>min_b = Fin 11000, max_b = Fin 44725, rate = fl 0.12\<rparr>"
    by (simp add: first_bracket_def single_brackets_def in_bracket_def)
  from getMarginalRate_first_bracket
         [OF h, of "Fin 36150" "\<lparr>min_b = Fin 11000, max_b = Fin 44725, rate = fl 0.12\<rparr>"]
    h m l s i f show ?thesis by simp
qed

text \<open>
  An infinite taxable income is in no bracket either (\<open>Infinity < Infinity\<close> is false):
  on the table of \<open>single\<close> the lookup then answers with the fallback.
\<close>

lemma getMarginalRate_Infinity:
  "marginal_loop PInf single_brackets = None \<and>
   getMarginalRate PInf single_brackets = Inr (fl 0.37)"
  by code_simp

subsection \<open>History\<close>

lemma history_saveToHistory:
  "history (saveToHistory this c) =
     (if length (history this) \<ge> 10 then butlast (c # history this) else c # history this)"
  by (simp add: saveToHistory_def Let_def)

lemma stored_saveToHistory:
  "localStorage (saveToHistory this c) ''taxHistory'' =
     Some (JSON_stringify (history (saveToHistory this c)))"
  by (simp add: saveToHistory_def Let_def)

lemma hd_saveToHistory: "hd (history (saveToHistory this e)) = e"
  by (cases "history this") (simp_all add: saveToHistory_def Let_def)

text \<open>One append on the ten most recent entries of \<open>l\<close> keeps the ten most recent.\<close>

lemma prepend_take:
  "(if length (take 10 l) \<ge> 10 then butlast (c # take 10 l) else c # take 10 l)
     = take 10 (c # l)"
proof (cases "10 \<le> length l")
  case True
  then have "butlast (take 10 l) = take 9 l" by (simp add: butlast_take)
  moreover from True have "take 10 l \<noteq> []" by auto
  ultimately show ?thesis using True by simp
next
  case False
  then show ?thesis by simp
qed

lemma history_foldl:
  "length (history this) \<le> 10 \<Longrightarrow>
   history (foldl saveToHistory this cs) = take 10 (rev cs @ history this)"
proof (induction cs rule: rev_induct)
  case Nil
  then show ?case by simp
next
  case (snoc c cs)
  then have IH: "history (foldl saveToHistory this cs) = take 10 (rev cs @ history this)"
    by simp
  have "history (foldl saveToHistory this (cs @ [c])) = take 10 (c # (rev cs @ history this))"
    by (simp only: foldl_append foldl_Cons foldl_Nil history_saveToHistory IH prepend_take)
  then show ?case by (simp only: rev_append rev.simps append_Cons append_Nil)
qed

text \<open>
  Claim C3. Starting from an empty history, after the appends \<open>cs\<close> (in the order they
  were made) the history has at most 10 entries and is the 10 most recently appended
  ones, most recent first; after at least one append the persisted form is the
  serialisation of that list.
\<close>

theorem history_ten_most_recent:
  assumes "history this = []"
  shows "length (history (foldl saveToHistory this cs)) \<le> 10 \<and>
         history (foldl saveToHistory this cs) = take 10 (rev cs) \<and>
         (cs \<noteq> [] \<longrightarrow> localStorage (foldl saveToHistory this cs) ''taxHistory''
            = Some (JSON_stringify (take 10 (rev cs))))"
proof -
  have h: "history (foldl saveToHistory this cs) = take 10 (rev cs)" for cs
    using history_foldl [of this cs] assms by simp
  have "localStorage (foldl saveToHistory this cs) ''taxHistory''
            = Some (JSON_stringify (take 10 (rev cs)))" if "cs \<noteq> []"
  proof -
    from that obtain ds d where cs: "cs = ds @ [d]" by (cases cs rule: rev_cases) auto
    have "localStorage (foldl saveToHistory this cs) ''taxHistory''
       = Some (JSON_stringify (history (foldl saveToHistory this cs)))"
      unfolding cs by (simp add: stored_saveToHistory)
    then show ?thesis by (simp add: h)
  qed
  with h show ?thesis by simp
qed

theorem history_ten_most_recent_witness:
  "history \<lparr>history = [], localStorage = Map.empty\<rparr> = [] \<and>
   history (foldl saveToHistory \<lparr>history = [], localStorage = Map.empty\<rparr>
              (map sample_calculation [1, 2, 3, 4, 5, 6, 7, 8, 9, 10, 11, 12]))
     = map sample_calculation [12, 11, 10, 9, 8, 7, 6, 5, 4, 3] \<and>
   length (history (foldl saveToHistory \<lparr>history = [], localStorage = Map.empty\<rparr>
              (map sample_calculation [1, 2, 3, 4, 5, 6, 7, 8, 9, 10, 11, 12]))) \<le> 10 \<and>
   localStorage (foldl saveToHistory \<lparr>history = [], localStorage = Map.empty\<rparr>
              (map sample_calculation [1, 2, 3, 4, 5, 6, 7, 8, 9, 10, 11, 12])) ''taxHistory''
     = Some (JSON_stringify (map sample_calculation [12, 11, 10, 9, 8, 7, 6, 5, 4, 3]))"
proof -
  have e: "history \<lparr>history = [], localStorage = Map.empty\<rparr> = []" by simp
  have t: "take 10 (rev (map sample_calculation [1, 2, 3, 4, 5, 6, 7, 8, 9, 10, 11, 12]))
         = map sample_calculation [12, 11, 10, 9, 8, 7, 6, 5, 4, 3]" by simp
  have n: "map sample_calculation [1, 2, 3, 4, 5, 6, 7, 8, 9, 10, 11, 12] \<noteq> []" by simp
  from history_ten_most_recent
         [OF e, of "map sample_calculation [1, 2, 3, 4, 5, 6, 7, 8, 9, 10, 11, 12]"] n
  show ?thesis unfolding t by simp
qed

subsection \<open>Loading the history\<close>

text \<open>
  Claim C4 as it is stated fails. With a text under \<open>taxHistory\<close> that \<open>JSON.parse\<close>
  rejects, line 39 does not yield an empty list: the \<open>SyntaxError\<close> leaves the
  constructor.
\<close>

theorem load_history_malformed:
  "load_history [''taxHistory'' \<mapsto> Malformed] = Inl SyntaxError"
  by (simp add: load_history_def)

text \<open>
  Claim C4, amended. Loading the history yields an empty list, with no error, when the
  key is absent and when its text deserialises to a falsy value (\<open>null\<close>, \<open>false\<close>,
  \<open>0\<close>, the empty string); a text that deserialises to any other value yields that
  value; a malformed text raises a \<open>SyntaxError\<close> that nothing catches. What
  \<open>saveToHistory\<close> has stored loads back as the serialised history, and after
  \<open>clearHistory\<close> the load yields the empty list.
\<close>

theorem load_history_cases:
  "(store ''taxHistory'' = None \<longrightarrow> load_history store = Inr (JArr [])) \<and>
   (store ''taxHistory'' = Some (JSON_text v) \<and> \<not> truthy v
      \<longrightarrow> load_history store = Inr (JArr [])) \<and>
   (store ''taxHistory'' = Some (JSON_text v) \<and> truthy v \<longrightarrow> load_history store = Inr v) \<and>
   (store ''taxHistory'' = Some Malformed \<longrightarrow> load_history store = Inl SyntaxError) \<and>
   load_history (localStorage (saveToHistory this c))
     = Inr (JArr (map calculation_json (history (saveToHistory this c)))) \<and>
   load_history (localStorage (clearHistory this)) = Inr (JArr [])"
  by (simp add: load_history_def stored_saveToHistory JSON_stringify_def clearHistory_def)

theorem load_history_cases_witness:
  "load_history Map.empty = Inr (JArr []) \<and>
   load_history [''taxHistory'' \<mapsto> JSON_text JNull] = Inr (JArr []) \<and>
   load_history [''taxHistory'' \<mapsto> JSON_text (JArr [JNum 1])] = Inr (JArr [JNum 1]) \<and>
   load_history [''taxHistory'' \<mapsto> Malformed] = Inl SyntaxError"
  using load_history_cases [of Map.empty JNull]
    load_history_cases [of "[''taxHistory'' \<mapsto> JSON_text JNull]" JNull]
    load_history_cases [of "[''taxHistory'' \<mapsto> JSON_text (JArr [JNum 1])]" "JArr [JNum 1]"]
    load_history_cases [of "[''taxHistory'' \<mapsto> Malformed]" JNull]
  by simp

subsection \<open>The calculation\<close>

text \<open>
  Claim C2. With income 50000, filing status \<open>single\<close>, custom deductions 0 and state
  \<open>low\<close>, \<open>calculateTax\<close> shows deductions 13850, taxable income 36150, federal tax
  4118, state tax 1500, total tax 5618, after-tax income 44382 and marginal rate 0.12
  (and an effective rate of 11.236 percent), whatever the history and the date.
\<close>

theorem calculateTax_scenario:
  "map_sum id fst
     (calculateTax this today
        \<lparr>income_field = Fin 50000, filingStatus_field = ''single'',
         deductions_field = Fin 0, state_field = ''low''\<rparr>) =
   Inr (Displayed
          \<lparr>income = Fin 50000, filingStatus = ''single'', federalTax = Fin 4118,
           stateTax = Fin 1500, totalTax = Fin 5618, afterTaxIncome = Fin 44382,
           deductions = Val (Fin 13850), taxableIncome = Fin 36150,
           brackets = single_brackets\<rparr>
          \<lparr>effectiveRate = fl 11.236, marginalRate = fl 0.12\<rparr>)"
  by code_simp

theorem calculateTax_scenario_witness:
  "map_sum id fst
     (calculateTax \<lparr>history = [], localStorage = Map.empty\<rparr> ''1/1/2024''
        \<lparr>income_field = Fin 50000, filingStatus_field = ''single'',
         deductions_field = Fin 0, state_field = ''low''\<rparr>) =
   Inr (Displayed
          \<lparr>income = Fin 50000, filingStatus = ''single'', federalTax = Fin 4118,
           stateTax = Fin 1500, totalTax = Fin 5618, afterTaxIncome = Fin 44382,
           deductions = Val (Fin 13850), taxableIncome = Fin 36150,
           brackets = single_brackets\<rparr>
          \<lparr>effectiveRate = fl 11.236, marginalRate = fl 0.12\<rparr>)"
  by (rule calculateTax_scenario)

text \<open>
  Claim C5. When the income is zero or absent (\<open>NaN\<close>), or the filing status is absent
  (the empty string), \<open>calculateTax\<close> shows the validation alert, produces no result
  and returns the calculator as it was: the history and \<open>localStorage\<close> are unchanged.
\<close>

theorem calculateTax_invalid:
  assumes "income_field f = NaN \<or> income_field f = Fin 0 \<or> filingStatus_field f = []"
  shows "calculateTax this today f =
           Inr (Alert ''Please enter your income and filing status.'', this)"
  using assms by (auto simp add: calculateTax_def Let_def or_n_def)

theorem calculateTax_invalid_witness:
  "income_field \<lparr>income_field = Fin 0, filingStatus_field = ''single'',
                  deductions_field = NaN, state_field = ''none''\<rparr> = Fin 0 \<and>
   calculateTax \<lparr>history = [], localStorage = Map.empty\<rparr> ''1/1/2024''
     \<lparr>income_field = Fin 0, filingStatus_field = ''single'',
      deductions_field = NaN, state_field = ''none''\<rparr> =
   Inr (Alert ''Please enter your income and filing status.'',
        \<lparr>history = [], localStorage = Map.empty\<rparr>)"
  using calculateTax_invalid [of "\<lparr>income_field = Fin 0, filingStatus_field = ''single'',
      deductions_field = NaN, state_field = ''none''\<rparr>"
      "\<lparr>history = [], localStorage = Map.empty\<rparr>" "''1/1/2024''"]
  by simp

lemma standardDeductions2024_truthy:
  "standardDeductions2024 fs = Some d \<Longrightarrow> truthy_n d"
  by (auto simp add: standardDeductions2024_def split: if_splits)

lemma resolve_brackets_own:
  assumes "fs \<notin> set Object_prototype"
  shows "\<exists>bs. resolve_brackets fs = Val bs \<and> bs \<noteq> []"
proof (cases "taxBrackets2024 fs")
  case None
  with assms show ?thesis
    by (simp add: resolve_brackets_def get_property_def single_brackets_def)
next
  case (Some bs)
  then have "bs \<noteq> []"
    by (auto simp add: taxBrackets2024_def single_brackets_def marriedJointly_brackets_def
        split: if_splits)
  with Some show ?thesis by (simp add: resolve_brackets_def get_property_def)
qed

lemma getMarginalRate_total: "bs \<noteq> [] \<Longrightarrow> \<exists>m. getMarginalRate ti bs = Inr m"
  by (simp add: getMarginalRate_def split: option.split)

text \<open>
  An input that passes the validation, with a filing status that is not the name of a
  member of \<open>Object.prototype\<close>, is calculated, shown and appended to the history: the
  brackets are an array that is not empty, so neither the loop nor the marginal-rate
  lookup fails.
\<close>

lemma calculateTax_valid:
  assumes "truthy_n (income_field f)" "filingStatus_field f \<noteq> []"
    "filingStatus_field f \<notin> set Object_prototype"
  shows "\<exists>r b e. calculateTax this today f = Inr (Displayed r b, saveToHistory this e) \<and>
           income r = income_field f \<and>
           deductions r =
             resolve_deductions (filingStatus_field f) (or_n (deductions_field f) (Fin 0)) \<and>
           (\<forall>bs. resolve_brackets (filingStatus_field f) = Val bs \<longrightarrow> brackets r = bs) \<and>
           income e = income_field f \<and> date e = today"
proof -
  from resolve_brackets_own [OF assms(3)] obtain bs where
    bs: "resolve_brackets (filingStatus_field f) = Val bs" "bs \<noteq> []" by blast
  from assms(1) have inc: "or_n (income_field f) (Fin 0) = income_field f"
    by (simp add: or_n_def)
  obtain m where m: "getMarginalRate
      (Math_max (Fin 0) (sub_n (income_field f)
         (ToNumber (resolve_deductions (filingStatus_field f)
            (or_n (deductions_field f) (Fin 0)))))) bs = Inr m"
    using getMarginalRate_total [OF bs(2)] by blast
  show ?thesis
    unfolding calculateTax_def Let_def displayResults_def displayBreakdown_def inc bs(1)
    using assms m
    by (intro exI conjI) (simp_all, simp_all)
qed

text \<open>
  Claim C6 as it is stated fails. \<open>constructor\<close> is not a key of the deduction table,
  yet the read \<open>this.standardDeductions2024['constructor']\<close> finds the member that every
  object inherits; it is truthy, so the deduction is that member and not 13850, and the
  calculation ends in a \<open>TypeError\<close>.
\<close>

theorem resolve_deductions_inherited:
  "standardDeductions2024 ''constructor'' = None \<and>
   resolve_deductions ''constructor'' (or_n NaN (Fin 0)) = Prototype_member \<and>
   calculateTax \<lparr>history = [], localStorage = Map.empty\<rparr> ''1/1/2024''
     \<lparr>income_field = Fin 50000, filingStatus_field = ''constructor'',
      deductions_field = NaN, state_field = ''none''\<rparr> = Inl TypeError"
proof -
  have t: "standardDeductions2024 ''constructor'' = None"
    by (simp add: standardDeductions2024_def)
  have r: "resolve_deductions ''constructor'' (or_n NaN (Fin 0)) = Prototype_member"
    by code_simp
  have "map_sum id fst
     (calculateTax \<lparr>history = [], localStorage = Map.empty\<rparr> ''1/1/2024''
       \<lparr>income_field = Fin 50000, filingStatus_field = ''constructor'',
        deductions_field = NaN, state_field = ''none''\<rparr>) = Inl TypeError"
    by code_simp
  then have "calculateTax \<lparr>history = [], localStorage = Map.empty\<rparr> ''1/1/2024''
       \<lparr>income_field = Fin 50000, filingStatus_field = ''constructor'',
        deductions_field = NaN, state_field = ''none''\<rparr> = Inl TypeError"
    by (cases "calculateTax \<lparr>history = [], localStorage = Map.empty\<rparr> ''1/1/2024''
       \<lparr>income_field = Fin 50000, filingStatus_field = ''constructor'',
        deductions_field = NaN, state_field = ''none''\<rparr>") simp_all
  with t r show ?thesis by simp
qed

text \<open>
  Claim C6, amended. The deductions of lines 80-81, for a filing status \<open>fs\<close> and the
  custom amount \<open>cd\<close> that \<open>parseFloat\<close> reads (\<open>NaN\<close> when the field is empty): the
  custom amount when it is present and not zero; otherwise the standard deduction of
  \<open>fs\<close> when the table has one, and 13850, the standard deduction of \<open>single\<close>, when
  it has none and \<open>fs\<close> is not the name of a member of \<open>Object.prototype\<close>. The lines
  raise no error, and for such a filing status their value is the deduction every
  calculation that passes the validation shows.
\<close>

theorem resolve_deductions_cases:
  "(truthy_n cd \<longrightarrow> resolve_deductions fs (or_n cd (Fin 0)) = Val cd) \<and>
   (\<not> truthy_n cd \<and> standardDeductions2024 fs = Some d
      \<longrightarrow> resolve_deductions fs (or_n cd (Fin 0)) = Val d) \<and>
   (\<not> truthy_n cd \<and> standardDeductions2024 fs = None \<and> fs \<notin> set Object_prototype
      \<longrightarrow> resolve_deductions fs (or_n cd (Fin 0)) = Val (Fin 13850)) \<and>
   standardDeductions2024 ''single'' = Some (Fin 13850) \<and>
   (truthy_n (income_field f) \<and> filingStatus_field f \<noteq> [] \<and>
    filingStatus_field f \<notin> set Object_prototype \<longrightarrow>
      (\<exists>r b that. calculateTax this today f = Inr (Displayed r b, that) \<and>
         deductions r =
           resolve_deductions (filingStatus_field f) (or_n (deductions_field f) (Fin 0))))"
proof -
  have custom: "resolve_deductions fs (or_n cd (Fin 0)) = Val cd" if "truthy_n cd"
    using that by (simp add: resolve_deductions_def or_n_def)
  have none: "or_n cd (Fin 0) = Fin 0" if "\<not> truthy_n cd"
    using that by (simp add: or_n_def)
  have standard: "resolve_deductions fs (or_n cd (Fin 0)) = Val d"
    if "\<not> truthy_n cd" "standardDeductions2024 fs = Some d"
    using none [OF that(1)] that(2) standardDeductions2024_truthy [OF that(2)]
    by (simp add: resolve_deductions_def get_property_def number_or_def or_n_def)
  have fallback: "resolve_deductions fs (or_n cd (Fin 0)) = Val (Fin 13850)"
    if "\<not> truthy_n cd" "standardDeductions2024 fs = None" "fs \<notin> set Object_prototype"
    using none [OF that(1)] that(2,3)
    by (simp add: resolve_deductions_def get_property_def number_or_def)
  have single: "standardDeductions2024 ''single'' = Some (Fin 13850)"
    by (simp add: standardDeductions2024_def)
  have used: "\<exists>r b that. calculateTax this today f = Inr (Displayed r b, that) \<and>
         deductions r =
           resolve_deductions (filingStatus_field f) (or_n (deductions_field f) (Fin 0))"
    if "truthy_n (income_field f)" "filingStatus_field f \<noteq> []"
      "filingStatus_field f \<notin> set Object_prototype"
    using calculateTax_valid [OF that, of this today] by blast
  from custom standard fallback single used show ?thesis by blast
qed

theorem resolve_deductions_cases_witness:
  "resolve_deductions ''single'' (or_n (Fin 20000) (Fin 0)) = Val (Fin 20000) \<and>
   standardDeductions2024 ''headOfHousehold'' = Some (Fin 20800) \<and>
   resolve_deductions ''headOfHousehold'' (or_n NaN (Fin 0)) = Val (Fin 20800) \<and>
   standardDeductions2024 ''widow'' = None \<and> ''widow'' \<notin> set Object_prototype \<and>
   resolve_deductions ''widow'' (or_n (Fin 0) (Fin 0)) = Val (Fin 13850) \<and>
   (\<exists>r b that. calculateTax \<lparr>history = [], localStorage = Map.empty\<rparr> ''1/1/2024''
       \<lparr>income_field = Fin 50000, filingStatus_field = ''widow'',
        deductions_field = Fin 0, state_field = ''none''\<rparr> = Inr (Displayed r b, that) \<and>
       deductions r = Val (Fin 13850))"
proof -
  have t1: "standardDeductions2024 ''headOfHousehold'' = Some (Fin 20800)"
    by (simp add: standardDeductions2024_def)
  have t2: "standardDeductions2024 ''widow'' = None"
    by (simp add: standardDeductions2024_def)
  have t3: "''widow'' \<notin> set Object_prototype"
    by (simp add: Object_prototype_def)
  from resolve_deductions_cases [of "Fin 20000" "''single''" "Fin 0"]
  have a: "resolve_deductions ''single'' (or_n (Fin 20000) (Fin 0)) = Val (Fin 20000)" by simp
  from resolve_deductions_cases [of NaN "''headOfHousehold''" "Fin 20800"] t1
  have b: "resolve_deductions ''headOfHousehold'' (or_n NaN (Fin 0)) = Val (Fin 20800)" by simp
  from resolve_deductions_cases [of "Fin 0" "''widow''" "Fin 0"
      "\<lparr>income_field = Fin 50000, filingStatus_field = ''widow'',
        deductions_field = Fin 0, state_field = ''none''\<rparr>"
      "\<lparr>history = [], localStorage = Map.empty\<rparr>" "''1/1/2024''"] t2 t3
  have c: "resolve_deductions ''widow'' (or_n (Fin 0) (Fin 0)) = Val (Fin 13850)"
   and d: "\<exists>r b that. calculateTax \<lparr>history = [], localStorage = Map.empty\<rparr> ''1/1/2024''
       \<lparr>income_field = Fin 50000, filingStatus_field = ''widow'',
        deductions_field = Fin 0, state_field = ''none''\<rparr> = Inr (Displayed r b, that) \<and>
       deductions r = Val (Fin 13850)"
    by auto
  from a b c d t1 t2 t3 show ?thesis by blast
qed

text \<open>
  Claim C9. \<open>marriedSeparately\<close> has no bracket table of its own, so the brackets
  resolve to those of \<open>single\<close>, while the deduction table has its entry, 13850, and
  that is the deduction used; a calculation for \<open>marriedSeparately\<close> with no custom
  deductions shows both.
\<close>

theorem marriedSeparately_fallbacks:
  "taxBrackets2024 ''marriedSeparately'' = None \<and>
   resolve_brackets ''marriedSeparately'' = Val single_brackets \<and>
   standardDeductions2024 ''marriedSeparately'' = Some (Fin 13850) \<and>
   resolve_deductions ''marriedSeparately'' (Fin 0) = Val (Fin 13850) \<and>
   (truthy_n (income_field f) \<and> filingStatus_field f = ''marriedSeparately'' \<and>
    \<not> truthy_n (deductions_field f) \<longrightarrow>
      (\<exists>r b that. calculateTax this today f = Inr (Displayed r b, that) \<and>
         brackets r = single_brackets \<and> deductions r = Val (Fin 13850)))"
proof -
  have n: "''marriedSeparately'' \<notin> set Object_prototype"
    by (simp add: Object_prototype_def)
  have t: "taxBrackets2024 ''marriedSeparately'' = None"
    by (simp add: taxBrackets2024_def)
  have b: "resolve_brackets ''marriedSeparately'' = Val single_brackets"
    using n by (simp add: resolve_brackets_def get_property_def t)
  have s: "standardDeductions2024 ''marriedSeparately'' = Some (Fin 13850)"
    by (simp add: standardDeductions2024_def)
  have d: "resolve_deductions ''marriedSeparately'' (Fin 0) = Val (Fin 13850)"
    by (simp add: resolve_deductions_def get_property_def number_or_def or_n_def s)
  have "\<exists>r b that. calculateTax this today f = Inr (Displayed r b, that) \<and>
         brackets r = single_brackets \<and> deductions r = Val (Fin 13850)"
    if "truthy_n (income_field f)" "filingStatus_field f = ''marriedSeparately''"
      "\<not> truthy_n (deductions_field f)"
  proof -
    from that(2) n have ne: "filingStatus_field f \<noteq> []"
      and ni: "filingStatus_field f \<notin> set Object_prototype" by simp_all
    from that(3) have z: "or_n (deductions_field f) (Fin 0) = Fin 0" by (simp add: or_n_def)
    from calculateTax_valid [OF that(1) ne ni, of this today] that(2) z b d
    show ?thesis by auto
  qed
  with t b s d show ?thesis by blast
qed

theorem marriedSeparately_fallbacks_witness:
  "truthy_n (income_field \<lparr>income_field = Fin 50000,
      filingStatus_field = ''marriedSeparately'', deductions_field = NaN,
      state_field = ''none''\<rparr>) \<and>
   (\<exists>r b that. calculateTax \<lparr>history = [], localStorage = Map.empty\<rparr> ''1/1/2024''
       \<lparr>income_field = Fin 50000, filingStatus_field = ''marriedSeparately'',
        deductions_field = NaN, state_field = ''none''\<rparr> = Inr (Displayed r b, that) \<and>
       brackets r = single_brackets \<and> deductions r = Val (Fin 13850)) \<and>
   map_sum id fst
     (calculateTax \<lparr>history = [], localStorage = Map.empty\<rparr> ''1/1/2024''
       \<lparr>income_field = Fin 50000, filingStatus_field = ''marriedSeparately'',
        deductions_field = NaN, state_field = ''none''\<rparr>) =
   Inr (Displayed
          \<lparr>income = Fin 50000, filingStatus = ''marriedSeparately'', federalTax = Fin 4118,
           stateTax = Fin 0, totalTax = Fin 4118, afterTaxIncome = Fin 45882,
           deductions = Val (Fin 13850), taxableIncome = Fin 36150,
           brackets = single_brackets\<rparr>
          \<lparr>effectiveRate = fl 8.236, marginalRate = fl 0.12\<rparr>)"
proof -
  have v: "map_sum id fst
     (calculateTax \<lparr>history = [], localStorage = Map.empty\<rparr> ''1/1/2024''
       \<lparr>income_field = Fin 50000, filingStatus_field = ''marriedSeparately'',
        deductions_field = NaN, state_field = ''none''\<rparr>) =
   Inr (Displayed
          \<lparr>income = Fin 50000, filingStatus = ''marriedSeparately'', federalTax = Fin 4118,
           stateTax = Fin 0, totalTax = Fin 4118, afterTaxIncome = Fin 45882,
           deductions = Val (Fin 13850), taxableIncome = Fin 36150,
           brackets = single_brackets\<rparr>
          \<lparr>effectiveRate = fl 8.236, marginalRate = fl 0.12\<rparr>)"
    by code_simp
  from marriedSeparately_fallbacks [of "\<lparr>income_field = Fin 50000,
      filingStatus_field = ''marriedSeparately'', deductions_field = NaN,
      state_field = ''none''\<rparr>" "\<lparr>history = [], localStorage = Map.empty\<rparr>" "''1/1/2024''"]
  have "truthy_n (income_field \<lparr>income_field = Fin 50000,
      filingStatus_field = ''marriedSeparately'', deductions_field = NaN,
      state_field = ''none''\<rparr>) \<and>
   (\<exists>r b that. calculateTax \<lparr>history = [], localStorage = Map.empty\<rparr> ''1/1/2024''
       \<lparr>income_field = Fin 50000, filingStatus_field = ''marriedSeparately'',
        deductions_field = NaN, state_field = ''none''\<rparr> = Inr (Displayed r b, that) \<and>
       brackets r = single_brackets \<and> deductions r = Val (Fin 13850))"
    by simp
  with v show ?thesis by blast
qed

text \<open>
  Claim C10 as it is stated fails. With income -5 and the filing status
  \<open>constructor\<close> the validation passes, but \<open>brackets\<close> is the inherited member of that
  name, the \<open>for ... of\<close> of \<open>calculateFederalTax\<close> throws a \<open>TypeError\<close>, and
  nothing is shown or saved.
\<close>

theorem negative_income_inherited_status:
  "lt_n (Fin (- 5)) (Fin 0) \<and>
   calculateTax \<lparr>history = [], localStorage = Map.empty\<rparr> ''1/1/2024''
     \<lparr>income_field = Fin (- 5), filingStatus_field = ''constructor'',
      deductions_field = NaN, state_field = ''low''\<rparr> = Inl TypeError"
proof -
  have "map_sum id fst
     (calculateTax \<lparr>history = [], localStorage = Map.empty\<rparr> ''1/1/2024''
       \<lparr>income_field = Fin (- 5), filingStatus_field = ''constructor'',
        deductions_field = NaN, state_field = ''low''\<rparr>) = Inl TypeError"
    by code_simp
  then have "calculateTax \<lparr>history = [], localStorage = Map.empty\<rparr> ''1/1/2024''
       \<lparr>income_field = Fin (- 5), filingStatus_field = ''constructor'',
        deductions_field = NaN, state_field = ''low''\<rparr> = Inl TypeError"
    by (cases "calculateTax \<lparr>history = [], localStorage = Map.empty\<rparr> ''1/1/2024''
       \<lparr>income_field = Fin (- 5), filingStatus_field = ''constructor'',
        deductions_field = NaN, state_field = ''low''\<rparr>") simp_all
  then show ?thesis by simp
qed

text \<open>
  Claim C10, amended. A negative income with a present filing status that is not the
  name of a member of \<open>Object.prototype\<close> passes the validation: no alert is shown, the
  calculation is displayed with that income, and an entry with that income and the date
  of the day is put at the head of the history and persisted.
\<close>

theorem negative_income_accepted:
  assumes "lt_n (income_field f) (Fin 0)" "filingStatus_field f \<noteq> []"
    "filingStatus_field f \<notin> set Object_prototype"
  shows "\<exists>r b e. calculateTax this today f = Inr (Displayed r b, saveToHistory this e) \<and>
           income r = income_field f \<and> income e = income_field f \<and> date e = today \<and>
           hd (history (saveToHistory this e)) = e \<and>
           localStorage (saveToHistory this e) ''taxHistory''
             = Some (JSON_stringify (history (saveToHistory this e)))"
proof -
  from assms(1) have t: "truthy_n (income_field f)" by (cases "income_field f") simp_all
  from calculateTax_valid [OF t assms(2,3), of this today] obtain r b e where
    c: "calculateTax this today f = Inr (Displayed r b, saveToHistory this e)"
    and r: "income r = income_field f"
    and e: "income e = income_field f" "date e = today"
    by blast
  have "calculateTax this today f = Inr (Displayed r b, saveToHistory this e) \<and>
           income r = income_field f \<and> income e = income_field f \<and> date e = today \<and>
           hd (history (saveToHistory this e)) = e \<and>
           localStorage (saveToHistory this e) ''taxHistory''
             = Some (JSON_stringify (history (saveToHistory this e)))"
    using c r e hd_saveToHistory [of this e] stored_saveToHistory [of this e]
    by simp
  then show ?thesis by blast
qed

theorem negative_income_accepted_witness:
  "lt_n (income_field \<lparr>income_field = Fin (- 5), filingStatus_field = ''single'',
      deductions_field = NaN, state_field = ''low''\<rparr>) (Fin 0) \<and>
   ''single'' \<notin> set Object_prototype \<and>
   (\<exists>r b e. calculateTax \<lparr>history = [], localStorage = Map.empty\<rparr> ''1/1/2024''
        \<lparr>income_field = Fin (- 5), filingStatus_field = ''single'',
         deductions_field = NaN, state_field = ''low''\<rparr>
      = Inr (Displayed r b, saveToHistory \<lparr>history = [], localStorage = Map.empty\<rparr> e) \<and>
      income r = Fin (- 5) \<and> income e = Fin (- 5) \<and>
      hd (history (saveToHistory \<lparr>history = [], localStorage = Map.empty\<rparr> e)) = e) \<and>
   map_sum id (\<lambda>p. (fst p, history (snd p)))
     (calculateTax \<lparr>history = [], localStorage = Map.empty\<rparr> ''1/1/2024''
        \<lparr>income_field = Fin (- 5), filingStatus_field = ''single'',
         deductions_field = NaN, state_field = ''low''\<rparr>) =
   Inr (Displayed
          \<lparr>income = Fin (- 5), filingStatus = ''single'', federalTax = Fin 0,
           stateTax = fl (- 0.15), totalTax = fl (- 0.15), afterTaxIncome = fl (- 4.85),
           deductions = Val (Fin 13850), taxableIncome = Fin 0,
           brackets = single_brackets\<rparr>
          \<lparr>effectiveRate = Fin 3, marginalRate = fl 0.1\<rparr>,
        [\<lparr>income = Fin (- 5), filingStatus = ''single'', federalTax = Fin 0,
          stateTax = fl (- 0.15), totalTax = fl (- 0.15), afterTaxIncome = fl (- 4.85),
          date = ''1/1/2024''\<rparr>])"
proof -
  have v: "map_sum id (\<lambda>p. (fst p, history (snd p)))
     (calculateTax \<lparr>history = [], localStorage = Map.empty\<rparr> ''1/1/2024''
        \<lparr>income_field = Fin (- 5), filingStatus_field = ''single'',
         deductions_field = NaN, state_field = ''low''\<rparr>) =
   Inr (Displayed
          \<lparr>income = Fin (- 5), filingStatus = ''single'', federalTax = Fin 0,
           stateTax = fl (- 0.15), totalTax = fl (- 0.15), afterTaxIncome = fl (- 4.85),
           deductions = Val (Fin 13850), taxableIncome = Fin 0,
           brackets = single_brackets\<rparr>
          \<lparr>effectiveRate = Fin 3, marginalRate = fl 0.1\<rparr>,
        [\<lparr>income = Fin (- 5), filingStatus = ''single'', federalTax = Fin 0,
          stateTax = fl (- 0.15), totalTax = fl (- 0.15), afterTaxIncome = fl (- 4.85),
          date = ''1/1/2024''\<rparr>])"
    by code_simp
  have i: "lt_n (income_field \<lparr>income_field = Fin (- 5), filingStatus_field = ''single'',
      deductions_field = NaN, state_field = ''low''\<rparr>) (Fin 0)" by simp
  have s: "filingStatus_field \<lparr>income_field = Fin (- 5), filingStatus_field = ''single'',
      deductions_field = NaN, state_field = ''low''\<rparr> \<noteq> []" by simp
  have n: "''single'' \<notin> set Object_prototype" by (simp add: Object_prototype_def)
  then have n': "filingStatus_field \<lparr>income_field = Fin (- 5), filingStatus_field = ''single'',
      deductions_field = NaN, state_field = ''low''\<rparr> \<notin> set Object_prototype" by simp
  from negative_income_accepted
         [OF i s n', of "\<lparr>history = [], localStorage = Map.empty\<rparr>" "''1/1/2024''"]
  obtain r b e where "calculateTax \<lparr>history = [], localStorage = Map.empty\<rparr> ''1/1/2024''
        \<lparr>income_field = Fin (- 5), filingStatus_field = ''single'',
         deductions_field = NaN, state_field = ''low''\<rparr>
      = Inr (Displayed r b, saveToHistory \<lparr>history = [], localStorage = Map.empty\<rparr> e) \<and>
      income r = Fin (- 5) \<and> income e = Fin (- 5) \<and>
      hd (history (saveToHistory \<lparr>history = [], localStorage = Map.empty\<rparr> e)) = e"
    by auto
  then have "\<exists>r b e. calculateTax \<lparr>history = [], localStorage = Map.empty\<rparr> ''1/1/2024''
        \<lparr>income_field = Fin (- 5), filingStatus_field = ''single'',
         deductions_field = NaN, state_field = ''low''\<rparr>
      = Inr (Displayed r b, saveToHistory \<lparr>history = [], localStorage = Map.empty\<rparr> e) \<and>
      income r = Fin (- 5) \<and> income e = Fin (- 5) \<and>
      hd (history (saveToHistory \<lparr>history = [], localStorage = Map.empty\<rparr> e)) = e"
    by blast
  with i n v show ?thesis by blast
qed

end
